theory Spec2Isabelle
  imports Main "HOL-Library.Word"
begin

unbundle bit_operations_syntax

section \<open>JavaScript strings\<close>

text \<open>
  A JavaScript string is a sequence of 16-bit code units (UTF-16). \<open>length\<close>, \<open>take\<close> and
  \<open>@\<close> are \<open>.length\<close>, \<open>.substring(0, n)\<close> and \<open>+\<close>. ASCII literals of the source are
  written \<open>str ''...''\<close>.
\<close>

type_synonym jschar = "16 word"
type_synonym jsstring = "16 word list"

definition str :: "string \<Rightarrow> jsstring" where
  "str s = map of_char s"

fun join :: "jsstring \<Rightarrow> jsstring list \<Rightarrow> jsstring" where
  "join sep [] = []"
| "join sep [x] = x"
| "join sep (x # y # ys) = x @ sep @ join sep (y # ys)"

definition digit_char :: "nat \<Rightarrow> jschar" where
  "digit_char d = of_nat (48 + d)"

text \<open>Decimal rendering of a non-negative integer, as a template literal prints a status code.\<close>

fun decimal :: "nat \<Rightarrow> jsstring" where
  "decimal n = (if n < 10 then [digit_char n] else decimal (n div 10) @ [digit_char (n mod 10)])"

declare decimal.simps [simp del]

definition hex_upper :: "nat \<Rightarrow> jschar" where
  "hex_upper d = (if d < 10 then of_nat (48 + d) else of_nat (55 + d))"

definition hex_lower :: "nat \<Rightarrow> jschar" where
  "hex_lower d = (if d < 10 then of_nat (48 + d) else of_nat (87 + d))"

definition is_high_surrogate :: "jschar \<Rightarrow> bool" where
  "is_high_surrogate c = (0xD800 \<le> c \<and> c \<le> 0xDBFF)"

definition is_low_surrogate :: "jschar \<Rightarrow> bool" where
  "is_low_surrogate c = (0xDC00 \<le> c \<and> c \<le> 0xDFFF)"

definition is_surrogate :: "jschar \<Rightarrow> bool" where
  "is_surrogate c = (is_high_surrogate c \<or> is_low_surrogate c)"

section \<open>\<open>URLSearchParams\<close>: the \<open>application/x-www-form-urlencoded\<close> serializer\<close>

text \<open>
  The constructor converts names and values to scalar value strings: a surrogate pair is
  one code point, a lone surrogate becomes U+FFFD.
\<close>

fun code_points :: "jsstring \<Rightarrow> nat list" where
  "code_points [] = []"
| "code_points [c] = [if is_surrogate c then 0xFFFD else unat c]"
| "code_points (c # d # cs) =
     (if is_high_surrogate c \<and> is_low_surrogate d
      then (0x10000 + (unat c - 0xD800) * 0x400 + (unat d - 0xDC00)) # code_points cs
      else (if is_surrogate c then 0xFFFD else unat c) # code_points (d # cs))"

definition utf8_encode :: "nat \<Rightarrow> 8 word list" where
  "utf8_encode cp =
     (if cp < 0x80 then [of_nat cp]
      else if cp < 0x800 then [of_nat (0xC0 + cp div 64), of_nat (0x80 + cp mod 64)]
      else if cp < 0x10000 then
        [of_nat (0xE0 + cp div 4096), of_nat (0x80 + cp div 64 mod 64), of_nat (0x80 + cp mod 64)]
      else
        [of_nat (0xF0 + cp div 262144), of_nat (0x80 + cp div 4096 mod 64),
         of_nat (0x80 + cp div 64 mod 64), of_nat (0x80 + cp mod 64)])"

text \<open>
  Bytes left as they are: ASCII letters and digits, \<open>*\<close>, \<open>-\<close>, \<open>.\<close> and \<open>_\<close>. A space
  becomes \<open>+\<close>; every other byte becomes \<open>%XX\<close> with upper-case hexadecimal digits.
\<close>

definition form_unreserved :: "8 word \<Rightarrow> bool" where
  "form_unreserved b =
     ((0x30 \<le> b \<and> b \<le> 0x39) \<or> (0x41 \<le> b \<and> b \<le> 0x5A) \<or> (0x61 \<le> b \<and> b \<le> 0x7A)
      \<or> b = 0x2A \<or> b = 0x2D \<or> b = 0x2E \<or> b = 0x5F)"

definition percent_encode_byte :: "8 word \<Rightarrow> jsstring" where
  "percent_encode_byte b =
     (if b = 0x20 then [0x2B]
      else if form_unreserved b then [ucast b]
      else [0x25, hex_upper (unat b div 16), hex_upper (unat b mod 16)])"

definition form_urlencode :: "jsstring \<Rightarrow> jsstring" where
  "form_urlencode s = concat (map percent_encode_byte (concat (map utf8_encode (code_points s))))"

definition serialize_pair :: "jsstring \<times> jsstring \<Rightarrow> jsstring" where
  "serialize_pair p = form_urlencode (fst p) @ [0x3D] @ form_urlencode (snd p)"

definition URLSearchParams_toString :: "(jsstring \<times> jsstring) list \<Rightarrow> jsstring" where
  "URLSearchParams_toString ps = join [0x26] (map serialize_pair ps)"

section \<open>Query parameters of the inbound event\<close>

text \<open>
  \<open>event.queryStringParameters\<close> is an object, modelled by the list of its own properties
  in enumeration order. A property value is a string, or an array of strings where the
  caller delivers several values under one key. \<open>None\<close> stands for \<open>null\<close> or
  \<open>undefined\<close>.
\<close>

datatype qval = QStr jsstring | QArr "jsstring list"

fun qval_ToString :: "qval \<Rightarrow> jsstring" where
  "qval_ToString (QStr s) = s"
| "qval_ToString (QArr xs) = join [0x2C] xs"

fun qval_ToBoolean :: "qval option \<Rightarrow> bool" where
  "qval_ToBoolean None = False"
| "qval_ToBoolean (Some (QStr s)) = (s \<noteq> [])"
| "qval_ToBoolean (Some (QArr xs)) = True"

record event =
  queryStringParameters :: "(jsstring \<times> qval) list option"

text \<open>
  \<open>new URLSearchParams(obj)\<close> converts the object to a record of scalar value strings.
  Names and values lose their lone surrogates to U+FFFD; a property whose converted name
  is already in the record replaces the value there, any other is appended.
\<close>

fun ToUSVString :: "jsstring \<Rightarrow> jsstring" where
  "ToUSVString [] = []"
| "ToUSVString [c] = [if is_surrogate c then 0xFFFD else c]"
| "ToUSVString (c # d # cs) =
     (if is_high_surrogate c \<and> is_low_surrogate d then c # d # ToUSVString cs
      else (if is_surrogate c then 0xFFFD else c) # ToUSVString (d # cs))"

fun record_set :: "jsstring \<Rightarrow> jsstring \<Rightarrow> (jsstring \<times> jsstring) list
    \<Rightarrow> (jsstring \<times> jsstring) list" where
  "record_set k v [] = [(k, v)]"
| "record_set k v ((k', v') # r) =
     (if k' = k then (k, v) # r else (k', v') # record_set k v r)"

definition URLSearchParams :: "(jsstring \<times> qval) list \<Rightarrow> (jsstring \<times> jsstring) list" where
  "URLSearchParams obj =
     foldl (\<lambda>r p. record_set (ToUSVString (fst p)) (ToUSVString (qval_ToString (snd p))) r) [] obj"

section \<open>JSON values and the platform\<close>

datatype 'n json =
    JNull
  | JBool bool
  | JNum 'n
  | JStr jsstring
  | JArr "'n json list"
  | JObj "(jsstring \<times> 'n json) list"

datatype jserror = JSError (message: jsstring)

datatype type_error = DestructureNullish | PropertyOfNull | ObjectToPrimitive

text \<open>
  What the engine decides and the repository does not: the IEEE double arithmetic behind
  number literals (the type \<open>'n\<close>), the wording of the messages of the exceptions it
  throws, and how deep its recursive built-ins can descend before the call stack is
  exhausted and they throw a RangeError. \<open>JSON.stringify\<close> takes one level of recursion
  for every level of nesting of arrays and objects; every engine manages two levels, and
  \<open>stringify_headroom\<close> is how many more this one manages. \<open>Array.prototype.join\<close>
  takes one level for every level of nesting of arrays.
\<close>

record 'n platform =
  StringToNumber :: "jsstring \<Rightarrow> 'n"
  NumberToString :: "'n \<Rightarrow> jsstring"
  isFinite :: "'n \<Rightarrow> bool"
  NumberToBoolean :: "'n \<Rightarrow> bool"
  SyntaxError_message :: "jsstring \<Rightarrow> jsstring"
  TypeError_message :: "type_error \<Rightarrow> jsstring"
  RangeError_message :: jsstring
  stringify_headroom :: nat
  join_depth_limit :: nat

fun depth :: "'n json \<Rightarrow> nat"
  and depth_elements :: "'n json list \<Rightarrow> nat"
  and depth_members :: "(jsstring \<times> 'n json) list \<Rightarrow> nat"
where
  "depth JNull = 0"
| "depth (JBool b) = 0"
| "depth (JNum n) = 0"
| "depth (JStr s) = 0"
| "depth (JArr vs) = Suc (depth_elements vs)"
| "depth (JObj kvs) = Suc (depth_members kvs)"
| "depth_elements [] = 0"
| "depth_elements (v # vs) = max (depth v) (depth_elements vs)"
| "depth_members [] = 0"
| "depth_members ((k, v) # kvs) = max (depth v) (depth_members kvs)"

fun array_depth :: "'n json \<Rightarrow> nat"
  and array_depth_elements :: "'n json list \<Rightarrow> nat"
where
  "array_depth (JArr vs) = Suc (array_depth_elements vs)"
| "array_depth JNull = 0"
| "array_depth (JBool b) = 0"
| "array_depth (JNum n) = 0"
| "array_depth (JStr s) = 0"
| "array_depth (JObj kvs) = 0"
| "array_depth_elements [] = 0"
| "array_depth_elements (v # vs) = max (array_depth v) (array_depth_elements vs)"

definition stringify_depth_limit :: "'n platform \<Rightarrow> nat" where
  "stringify_depth_limit P = 2 + stringify_headroom P"

section \<open>\<open>JSON.stringify\<close>\<close>

definition unicode_escape :: "jschar \<Rightarrow> jsstring" where
  "unicode_escape c =
     [0x5C, 0x75, hex_lower (unat c div 4096), hex_lower (unat c div 256 mod 16),
      hex_lower (unat c div 16 mod 16), hex_lower (unat c mod 16)]"

definition quote_unit :: "jschar \<Rightarrow> jsstring" where
  "quote_unit c =
     (if c = 0x08 then [0x5C, 0x62]
      else if c = 0x09 then [0x5C, 0x74]
      else if c = 0x0A then [0x5C, 0x6E]
      else if c = 0x0C then [0x5C, 0x66]
      else if c = 0x0D then [0x5C, 0x72]
      else if c = 0x22 then [0x5C, 0x22]
      else if c = 0x5C then [0x5C, 0x5C]
      else if c < 0x20 \<or> is_surrogate c then unicode_escape c
      else [c])"

text \<open>A surrogate pair is copied; a lone surrogate is escaped.\<close>

fun quote_units :: "jsstring \<Rightarrow> jsstring" where
  "quote_units [] = []"
| "quote_units [c] = quote_unit c"
| "quote_units (c # d # cs) =
     (if is_high_surrogate c \<and> is_low_surrogate d then c # d # quote_units cs
      else quote_unit c @ quote_units (d # cs))"

definition QuoteJSONString :: "jsstring \<Rightarrow> jsstring" where
  "QuoteJSONString s = [0x22] @ quote_units s @ [0x22]"

text \<open>The text that serializing a value produces.\<close>

fun SerializeJSONProperty :: "'n platform \<Rightarrow> 'n json \<Rightarrow> jsstring"
  and stringify_elements :: "'n platform \<Rightarrow> 'n json list \<Rightarrow> jsstring list"
  and stringify_members :: "'n platform \<Rightarrow> (jsstring \<times> 'n json) list \<Rightarrow> jsstring list"
where
  "SerializeJSONProperty P JNull = str ''null''"
| "SerializeJSONProperty P (JBool b) = (if b then str ''true'' else str ''false'')"
| "SerializeJSONProperty P (JNum n) = (if isFinite P n then NumberToString P n else str ''null'')"
| "SerializeJSONProperty P (JStr s) = QuoteJSONString s"
| "SerializeJSONProperty P (JArr vs) = [0x5B] @ join [0x2C] (stringify_elements P vs) @ [0x5D]"
| "SerializeJSONProperty P (JObj kvs) = [0x7B] @ join [0x2C] (stringify_members P kvs) @ [0x7D]"
| "stringify_elements P [] = []"
| "stringify_elements P (v # vs) = SerializeJSONProperty P v # stringify_elements P vs"
| "stringify_members P [] = []"
| "stringify_members P ((k, v) # kvs) =
     (QuoteJSONString k @ [0x3A] @ SerializeJSONProperty P v) # stringify_members P kvs"

text \<open>
  The call \<open>JSON.stringify(v)\<close>: the text of \<open>v\<close>, or a RangeError when \<open>v\<close> is nested
  deeper than the serializer can descend.
\<close>

definition JSON_stringify :: "'n platform \<Rightarrow> 'n json \<Rightarrow> jserror + jsstring" where
  "JSON_stringify P v =
     (if depth v \<le> stringify_depth_limit P then Inr (SerializeJSONProperty P v)
      else Inl (JSError (RangeError_message P)))"

section \<open>\<open>JSON.parse\<close>\<close>

definition is_ws :: "jschar \<Rightarrow> bool" where
  "is_ws c = (c = 0x20 \<or> c = 0x09 \<or> c = 0x0A \<or> c = 0x0D)"

definition skip_ws :: "jsstring \<Rightarrow> jsstring" where
  "skip_ws s = dropWhile is_ws s"

definition is_digit :: "jschar \<Rightarrow> bool" where
  "is_digit c = (0x30 \<le> c \<and> c \<le> 0x39)"

definition hex_value :: "jschar \<Rightarrow> nat option" where
  "hex_value c =
     (if 0x30 \<le> c \<and> c \<le> 0x39 then Some (unat c - 0x30)
      else if 0x41 \<le> c \<and> c \<le> 0x46 then Some (unat c - 0x37)
      else if 0x61 \<le> c \<and> c \<le> 0x66 then Some (unat c - 0x57)
      else None)"

definition hex4 :: "jschar \<Rightarrow> jschar \<Rightarrow> jschar \<Rightarrow> jschar \<Rightarrow> jschar option" where
  "hex4 a b c d =
     (case (hex_value a, hex_value b, hex_value c, hex_value d) of
        (Some w, Some x, Some y, Some z) \<Rightarrow> Some (of_nat (w * 4096 + x * 256 + y * 16 + z))
      | _ \<Rightarrow> None)"

definition unescape :: "jschar \<Rightarrow> jschar option" where
  "unescape e =
     (if e = 0x22 then Some 0x22
      else if e = 0x5C then Some 0x5C
      else if e = 0x2F then Some 0x2F
      else if e = 0x62 then Some 0x08
      else if e = 0x66 then Some 0x0C
      else if e = 0x6E then Some 0x0A
      else if e = 0x72 then Some 0x0D
      else if e = 0x74 then Some 0x09
      else None)"

definition cons_result :: "'a \<Rightarrow> ('a list \<times> 'b) option \<Rightarrow> ('a list \<times> 'b) option" where
  "cons_result x r = (case r of None \<Rightarrow> None | Some (xs, rest) \<Rightarrow> Some (x # xs, rest))"

fun parse_string_chars :: "jsstring \<Rightarrow> (jsstring \<times> jsstring) option" where
  "parse_string_chars [] = None"
| "parse_string_chars (c # cs) =
     (if c = 0x22 then Some ([], cs)
      else if c = 0x5C then
        (case cs of
           [] \<Rightarrow> None
         | e # es \<Rightarrow>
             if e = 0x75 then
               (case es of
                  h1 # h2 # h3 # h4 # r \<Rightarrow>
                    (case hex4 h1 h2 h3 h4 of
                       None \<Rightarrow> None
                     | Some u \<Rightarrow> cons_result u (parse_string_chars r))
                | _ \<Rightarrow> None)
             else
               (case unescape e of
                  None \<Rightarrow> None
                | Some u \<Rightarrow> cons_result u (parse_string_chars es)))
      else if c < 0x20 then None
      else cons_result c (parse_string_chars cs))"

text \<open>Number literals: \<open>-? (0 | [1-9][0-9]*) (. [0-9]+)? ([eE] [+-]? [0-9]+)?\<close>.\<close>

definition scan_int :: "jsstring \<Rightarrow> (jsstring \<times> jsstring) option" where
  "scan_int s =
     (case s of
        [] \<Rightarrow> None
      | c # cs \<Rightarrow>
          if c = 0x30 then Some ([c], cs)
          else if is_digit c then Some (c # takeWhile is_digit cs, dropWhile is_digit cs)
          else None)"

definition scan_frac :: "jsstring \<Rightarrow> (jsstring \<times> jsstring) option" where
  "scan_frac s =
     (case s of
        c # cs \<Rightarrow>
          if c = 0x2E then
            (if takeWhile is_digit cs = [] then None
             else Some (c # takeWhile is_digit cs, dropWhile is_digit cs))
          else Some ([], s)
      | [] \<Rightarrow> Some ([], s))"

definition scan_sign :: "jsstring \<Rightarrow> jsstring \<times> jsstring" where
  "scan_sign s =
     (case s of
        c # cs \<Rightarrow> if c = 0x2B \<or> c = 0x2D then ([c], cs) else ([], s)
      | [] \<Rightarrow> ([], s))"

definition scan_exp :: "jsstring \<Rightarrow> (jsstring \<times> jsstring) option" where
  "scan_exp s =
     (case s of
        c # cs \<Rightarrow>
          if c = 0x65 \<or> c = 0x45 then
            (case scan_sign cs of
               (sg, ds) \<Rightarrow>
                 if takeWhile is_digit ds = [] then None
                 else Some (c # sg @ takeWhile is_digit ds, dropWhile is_digit ds))
          else Some ([], s)
      | [] \<Rightarrow> Some ([], s))"

definition scan_number :: "jsstring \<Rightarrow> (jsstring \<times> jsstring) option" where
  "scan_number s =
     (let (minus, s0) = (case s of c # cs \<Rightarrow> if c = 0x2D then ([c], cs) else ([], s) | [] \<Rightarrow> ([], s))
      in case scan_int s0 of
           None \<Rightarrow> None
         | Some (i, s1) \<Rightarrow>
             (case scan_frac s1 of
                None \<Rightarrow> None
              | Some (f, s2) \<Rightarrow>
                  (case scan_exp s2 of
                     None \<Rightarrow> None
                   | Some (e, s3) \<Rightarrow> Some (minus @ i @ f @ e, s3))))"

definition expect :: "jsstring \<Rightarrow> 'a \<Rightarrow> jsstring \<Rightarrow> ('a \<times> jsstring) option" where
  "expect lit v s = (if take (length lit) s = lit then Some (v, drop (length lit) s) else None)"

text \<open>Own properties of an object created by \<open>JSON.parse\<close>.\<close>

definition array_index :: "jsstring \<Rightarrow> int option" where
  "array_index k =
     (if k \<noteq> [] \<and> list_all is_digit k \<and> (hd k = 0x30 \<longrightarrow> length k = 1)
         \<and> foldl (\<lambda>a c. 10 * a + (uint c - 48)) 0 k < 4294967295
      then Some (foldl (\<lambda>a c. 10 * a + (uint c - 48)) 0 k) else None)"

fun insert_index :: "int \<Rightarrow> jsstring \<Rightarrow> 'v \<Rightarrow> (jsstring \<times> 'v) list \<Rightarrow> (jsstring \<times> 'v) list" where
  "insert_index i k v [] = [(k, v)]"
| "insert_index i k v ((k', v') # kvs) =
     (case array_index k' of
        None \<Rightarrow> (k, v) # (k', v') # kvs
      | Some j \<Rightarrow> if i < j then (k, v) # (k', v') # kvs else (k', v') # insert_index i k v kvs)"

fun replace_value :: "jsstring \<Rightarrow> 'v \<Rightarrow> (jsstring \<times> 'v) list \<Rightarrow> (jsstring \<times> 'v) list" where
  "replace_value k v [] = []"
| "replace_value k v ((k', v') # kvs) =
     (if k' = k then (k, v) # kvs else (k', v') # replace_value k v kvs)"

definition CreateDataProperty :: "(jsstring \<times> 'v) list \<Rightarrow> jsstring \<times> 'v \<Rightarrow> (jsstring \<times> 'v) list" where
  "CreateDataProperty obj p =
     (if fst p \<in> set (map fst obj) then replace_value (fst p) (snd p) obj
      else case array_index (fst p) of
             Some i \<Rightarrow> insert_index i (fst p) (snd p) obj
           | None \<Rightarrow> obj @ [p])"

definition object_of_members :: "(jsstring \<times> 'v) list \<Rightarrow> (jsstring \<times> 'v) list" where
  "object_of_members ms = foldl CreateDataProperty [] ms"

text \<open>
  The recursive-descent parser. After a value has been read, the test that the rest of
  the input is shorter than what the value started from is what makes the recursion
  well-founded; it never fails (\<open>parse_elements_unguarded\<close> and
  \<open>parse_members_unguarded\<close> below).
\<close>

function parse_value :: "'n platform \<Rightarrow> jsstring \<Rightarrow> ('n json \<times> jsstring) option"
  and parse_elements :: "'n platform \<Rightarrow> jsstring \<Rightarrow> ('n json list \<times> jsstring) option"
  and parse_members :: "'n platform \<Rightarrow> jsstring \<Rightarrow> ((jsstring \<times> 'n json) list \<times> jsstring) option"
where
  "parse_value P [] = None"
| "parse_value P (c # cs) =
     (if c = 0x7B then
        (case skip_ws cs of
           [] \<Rightarrow> None
         | d # ds \<Rightarrow>
             if d = 0x7D then Some (JObj [], ds)
             else (case parse_members P (d # ds) of
                     None \<Rightarrow> None
                   | Some (ms, rest) \<Rightarrow> Some (JObj (object_of_members ms), rest)))
      else if c = 0x5B then
        (case skip_ws cs of
           [] \<Rightarrow> None
         | d # ds \<Rightarrow>
             if d = 0x5D then Some (JArr [], ds)
             else (case parse_elements P (d # ds) of
                     None \<Rightarrow> None
                   | Some (vs, rest) \<Rightarrow> Some (JArr vs, rest)))
      else if c = 0x22 then
        (case parse_string_chars cs of
           None \<Rightarrow> None
         | Some (s, rest) \<Rightarrow> Some (JStr s, rest))
      else if c = 0x74 then expect (str ''true'') (JBool True) (c # cs)
      else if c = 0x66 then expect (str ''false'') (JBool False) (c # cs)
      else if c = 0x6E then expect (str ''null'') JNull (c # cs)
      else
        (case scan_number (c # cs) of
           None \<Rightarrow> None
         | Some (lit, rest) \<Rightarrow> Some (JNum (StringToNumber P lit), rest)))"
| "parse_elements P [] = None"
| "parse_elements P (c # cs) =
     (case parse_value P (c # cs) of
        None \<Rightarrow> None
      | Some (v, r) \<Rightarrow>
          if length r \<le> length cs then
            (case skip_ws r of
               [] \<Rightarrow> None
             | d # ds \<Rightarrow>
                 if d = 0x2C then cons_result v (parse_elements P (skip_ws ds))
                 else if d = 0x5D then Some ([v], ds)
                 else None)
          else None)"
| "parse_members P [] = None"
| "parse_members P (c # cs) =
     (if c = 0x22 then
        (case parse_string_chars cs of
           None \<Rightarrow> None
         | Some (k, r0) \<Rightarrow>
             (case skip_ws r0 of
                [] \<Rightarrow> None
              | e # es \<Rightarrow>
                  if e = 0x3A then
                    (case parse_value P (skip_ws es) of
                       None \<Rightarrow> None
                     | Some (v, r) \<Rightarrow>
                         if length r < length es then
                           (case skip_ws r of
                              [] \<Rightarrow> None
                            | d # ds \<Rightarrow>
                                if d = 0x2C then cons_result (k, v) (parse_members P (skip_ws ds))
                                else if d = 0x7D then Some ([(k, v)], ds)
                                else None)
                         else None)
                  else None))
      else None)"
  by pat_completeness auto

termination
proof (relation "measure (\<lambda>x. case x of
             Inl (P, s) \<Rightarrow> 2 * length s
           | Inr (Inl (P, s)) \<Rightarrow> 2 * length s + 1
           | Inr (Inr (P, s)) \<Rightarrow> 2 * length s + 1)", goal_cases)
  have ws: "length (skip_ws s) \<le> length s" for s
    by (simp add: skip_ws_def length_dropWhile_le)
  have ws_Cons: "length ds < length s" if "skip_ws s = d # ds" for s d ds
    using ws [of s] that by simp
  have chars: "parse_string_chars s = Some (t, rest) \<Longrightarrow> length rest < length s" for s t rest
  proof (induction s arbitrary: t rest rule: parse_string_chars.induct)
    case 1
    then show ?case by simp
  next
    case (2 c cs)
    then show ?case
      by (fastforce simp: cons_result_def split: if_splits list.splits option.splits)
  qed
  {
    case 1
    then show ?case by simp
  next
    case (2 P c cs d ds)
    then show ?case using ws_Cons [of cs d ds] by simp
  next
    case (3 P c cs d ds)
    then show ?case using ws_Cons [of cs d ds] by simp
  next
    case (4 P c cs)
    then show ?case by simp
  next
    case (5 P c cs x v r d ds)
    then show ?case
      using ws_Cons [of r d ds] ws [of ds] by simp
  next
    case (6 P c cs x k r0 e es)
    then show ?case
      using chars [of cs k r0] ws_Cons [of r0 e es] ws [of es] by simp
  next
    case (7 P c cs x k r0 e es y v r d ds)
    then show ?case
      using chars [of cs k r0] ws_Cons [of r0 e es] ws_Cons [of r d ds] ws [of ds] by simp
  }
qed

definition JSON_parse :: "'n platform \<Rightarrow> jsstring \<Rightarrow> jserror + 'n json" where
  "JSON_parse P text =
     (case parse_value P (skip_ws text) of
        None \<Rightarrow> Inl (JSError (SyntaxError_message P text))
      | Some (v, rest) \<Rightarrow>
          if skip_ws rest = [] then Inr v else Inl (JSError (SyntaxError_message P text)))"

text \<open>
  Two predicates on characters for the proofs: what may follow a value inside a document
  (nothing, a comma, a closing bracket or brace), and what a value may start with. A
  platform prints numbers well when the text of every finite number is one complete
  number literal; \<open>JSON.stringify\<close> writes that text into the document.
\<close>

definition delimited :: "jsstring \<Rightarrow> bool" where
  "delimited rest = (case rest of [] \<Rightarrow> True | c # cs \<Rightarrow> c = 0x2C \<or> c = 0x5D \<or> c = 0x7D)"

definition value_start :: "jschar \<Rightarrow> bool" where
  "value_start c = (\<not> is_ws c \<and> c \<noteq> 0x2C \<and> c \<noteq> 0x5D \<and> c \<noteq> 0x7D)"

definition number_literals_ok :: "'n platform \<Rightarrow> bool" where
  "number_literals_ok P =
     (\<forall>n. isFinite P n \<longrightarrow> scan_number (NumberToString P n) = Some (NumberToString P n, []))"

section \<open>Conversions the handler relies on\<close>

text \<open>
  \<open>ToString\<close> as a template literal applies it. An array is joined with commas, \<open>null\<close>
  elements giving the empty string. A plain object gives \<open>[object Object]\<close>, unless it
  has an own property \<open>toString\<close>: a value read from JSON is never callable, the
  fallback \<open>valueOf\<close> returns no primitive, and the conversion throws a TypeError.
  Arrays nested deeper than \<open>join\<close> can descend throw a RangeError.
\<close>

fun ToString :: "'n platform \<Rightarrow> 'n json \<Rightarrow> jserror + jsstring"
  and ToString_elements :: "'n platform \<Rightarrow> 'n json list \<Rightarrow> jserror + jsstring list"
where
  "ToString P JNull = Inr (str ''null'')"
| "ToString P (JBool b) = Inr (if b then str ''true'' else str ''false'')"
| "ToString P (JNum n) = Inr (NumberToString P n)"
| "ToString P (JStr s) = Inr s"
| "ToString P (JArr vs) =
     (if join_depth_limit P < array_depth (JArr vs) then Inl (JSError (RangeError_message P))
      else case ToString_elements P vs of Inl e \<Rightarrow> Inl e | Inr xs \<Rightarrow> Inr (join [0x2C] xs))"
| "ToString P (JObj kvs) =
     (if str ''toString'' \<in> set (map fst kvs)
      then Inl (JSError (TypeError_message P ObjectToPrimitive))
      else Inr (str ''[object Object]''))"
| "ToString_elements P [] = Inr []"
| "ToString_elements P (v # vs) =
     (case (case v of JNull \<Rightarrow> Inr [] | _ \<Rightarrow> ToString P v) of
        Inl e \<Rightarrow> Inl e
      | Inr x \<Rightarrow>
          (case ToString_elements P vs of Inl e \<Rightarrow> Inl e | Inr xs \<Rightarrow> Inr (x # xs)))"

fun ToBoolean :: "'n platform \<Rightarrow> 'n json \<Rightarrow> bool" where
  "ToBoolean P JNull = False"
| "ToBoolean P (JBool b) = b"
| "ToBoolean P (JNum n) = NumberToBoolean P n"
| "ToBoolean P (JStr s) = (s \<noteq> [])"
| "ToBoolean P (JArr vs) = True"
| "ToBoolean P (JObj kvs) = True"

text \<open>
  \<open>data.message\<close>: reading a property of \<open>null\<close> throws; an object gives its own
  property or \<open>undefined\<close> (\<open>None\<close>); every other value has no such property.
\<close>

fun Get_message :: "'n platform \<Rightarrow> 'n json \<Rightarrow> jserror + 'n json option" where
  "Get_message P JNull = Inl (JSError (TypeError_message P PropertyOfNull))"
| "Get_message P (JObj kvs) = Inr (map_of kvs (str ''message''))"
| "Get_message P (JBool b) = Inr None"
| "Get_message P (JNum n) = Inr None"
| "Get_message P (JStr s) = Inr None"
| "Get_message P (JArr vs) = Inr None"

text \<open>The interpolation \<open>${data.message || 'Unknown error'}\<close>.\<close>

definition message_or_unknown :: "'n platform \<Rightarrow> 'n json \<Rightarrow> jserror + jsstring" where
  "message_or_unknown P data =
     (case Get_message P data of
        Inl e \<Rightarrow> Inl e
      | Inr None \<Rightarrow> Inr (str ''Unknown error'')
      | Inr (Some v) \<Rightarrow> if ToBoolean P v then ToString P v else Inr (str ''Unknown error''))"

fun json_of_qval :: "qval \<Rightarrow> 'n json" where
  "json_of_qval (QStr s) = JStr s"
| "json_of_qval (QArr xs) = JArr (map JStr xs)"

fun key_ToString :: "jsstring option \<Rightarrow> jsstring" where
  "key_ToString None = str ''undefined''"
| "key_ToString (Some k) = k"

section \<open>The handler\<close>

text \<open>
  The outbound request (a GET), the reply of the upstream API, and the response returned
  to the platform. Reading the body of a reply can fail after the reply has arrived.
  \<open>fetch\<close> is the network: a function from the request to an exception or a reply.
\<close>

record request =
  url :: jsstring
  request_headers :: "(jsstring \<times> jsstring) list"

record upstream_response =
  status :: nat
  body_text :: "jserror + jsstring"

record response =
  statusCode :: nat
  headers :: "(jsstring \<times> jsstring) list"
  body :: jsstring

definition ok :: "upstream_response \<Rightarrow> bool" where
  "ok r = (200 \<le> status r \<and> status r \<le> 299)"

definition json_headers :: "(jsstring \<times> jsstring) list" where
  "json_headers =
     [(str ''Content-Type'', str ''application/json''),
      (str ''Access-Control-Allow-Origin'', str ''*'')]"

definition cwaApiBaseUrl :: jsstring where
  "cwaApiBaseUrl = str ''https://opendata.cwa.gov.tw/api/v1/rest/datastore''"

definition cwaUrl :: "qval \<Rightarrow> (jsstring \<times> qval) list \<Rightarrow> jsstring" where
  "cwaUrl datasetId otherParams =
     cwaApiBaseUrl @ str ''/'' @ qval_ToString datasetId @ str ''?''
       @ URLSearchParams_toString (URLSearchParams otherParams)"

definition cwa_request :: "jsstring option \<Rightarrow> qval \<Rightarrow> (jsstring \<times> qval) list \<Rightarrow> request" where
  "cwa_request CWA_API_KEY datasetId otherParams =
     \<lparr> url = cwaUrl datasetId otherParams,
       request_headers = [(str ''Authorization'', str ''CWA '' @ key_ToString CWA_API_KEY)] \<rparr>"

text \<open>
  A response object whose body is \<open>JSON.stringify(v)\<close>; the exception of the call, if it
  throws, is the outcome.
\<close>

definition respond :: "'n platform \<Rightarrow> nat \<Rightarrow> 'n json \<Rightarrow> jserror + response" where
  "respond P st v =
     (case JSON_stringify P v of
        Inl e \<Rightarrow> Inl e
      | Inr b \<Rightarrow> Inr \<lparr> statusCode = st, headers = json_headers, body = b \<rparr>)"

definition missing_datasetId :: "'n platform \<Rightarrow> jserror + response" where
  "missing_datasetId P =
     respond P 400 (JObj [(str ''error'', JStr (str ''Missing datasetId in query parameters.''))])"

definition internal_error :: "'n platform \<Rightarrow> jserror \<Rightarrow> jserror + response" where
  "internal_error P error =
     respond P 500
       (JObj [(str ''error'',
               JStr (str ''Serverless Function Internal Error: '' @ message error))])"

definition upstream_error :: "'n platform \<Rightarrow> nat \<Rightarrow> jsstring \<Rightarrow> 'n json \<Rightarrow> jserror + response" where
  "upstream_error P st m data =
     respond P st
       (JObj [(str ''error'', JStr (str ''CWA API error ('' @ decimal st @ str ''): '' @ m)),
              (str ''cwa_response'', data)])"

definition success :: "'n platform \<Rightarrow> 'n json \<Rightarrow> jserror + response" where
  "success P data = respond P 200 data"

definition parse_failure :: "'n platform \<Rightarrow> jserror \<Rightarrow> jsstring \<Rightarrow> qval \<Rightarrow> jserror + response" where
  "parse_failure P jsonParseError rawResponseText datasetId =
     respond P 500
       (JObj [(str ''error'',
               JStr (str ''Serverless Function Internal Error: Failed to parse CWA API response as JSON. Original error: ''
                     @ message jsonParseError)),
              (str ''raw_cwa_response_snippet'', JStr (take 200 rawResponseText @ str ''...'')),
              (str ''datasetId'', json_of_qval datasetId)])"

text \<open>
  The \<open>try\<close> block of \<open>src/unnamed/part_000\<close>: the body is read as text and parsed under
  an inner \<open>try\<close>. \<open>Inl\<close> is an exception that reaches the outer \<open>catch\<close>; the calls of
  \<open>JSON.stringify\<close> are inside the \<open>try\<close>.
\<close>

definition try_block :: "'n platform \<Rightarrow> (request \<Rightarrow> jserror + upstream_response) \<Rightarrow> request \<Rightarrow> qval
    \<Rightarrow> jserror + response" where
  "try_block P fetch req datasetId =
     (case fetch req of
        Inl e \<Rightarrow> Inl e
      | Inr response \<Rightarrow>
          (case body_text response of
             Inl e \<Rightarrow> Inl e
           | Inr rawResponseText \<Rightarrow>
               (case JSON_parse P rawResponseText of
                  Inl jsonParseError \<Rightarrow>
                    parse_failure P jsonParseError rawResponseText datasetId
                | Inr data \<Rightarrow>
                    if \<not> ok response then
                      (case message_or_unknown P data of
                         Inl e \<Rightarrow> Inl e
                       | Inr m \<Rightarrow> upstream_error P (status response) m data)
                    else success P data)))"

text \<open>
  The \<open>try\<close> block of \<open>src/netlify/functions/cwa-proxy.js\<close>: \<open>response.json()\<close> reads and
  parses the body, and a body that is not JSON is an exception like any other.
\<close>

definition try_block_netlify :: "'n platform \<Rightarrow> (request \<Rightarrow> jserror + upstream_response) \<Rightarrow> request
    \<Rightarrow> jserror + response" where
  "try_block_netlify P fetch req =
     (case fetch req of
        Inl e \<Rightarrow> Inl e
      | Inr response \<Rightarrow>
          (case body_text response of
             Inl e \<Rightarrow> Inl e
           | Inr rawResponseText \<Rightarrow>
               (case JSON_parse P rawResponseText of
                  Inl e \<Rightarrow> Inl e
                | Inr data \<Rightarrow>
                    if \<not> ok response then
                      (case message_or_unknown P data of
                         Inl e \<Rightarrow> Inl e
                       | Inr m \<Rightarrow> upstream_error P (status response) m data)
                    else success P data)))"

definition catch :: "'n platform \<Rightarrow> jserror + response \<Rightarrow> jserror + response" where
  "catch P r = (case r of Inl error \<Rightarrow> internal_error P error | Inr res \<Rightarrow> Inr res)"

text \<open>
  \<open>exports.handler\<close>. The result is what the returned promise settles to (\<open>Inl\<close>: it
  rejects), together with the outbound requests made. Destructuring
  \<open>event.queryStringParameters\<close> comes before the \<open>try\<close>. The calls of \<open>console.log\<close>
  and \<open>console.error\<close> are left out: the handler uses nothing they return, and the one
  interpolation among their arguments that can throw, \<open>data.message\<close>, is evaluated
  again for the body right after, with the same outcome.
\<close>

definition handler :: "'n platform \<Rightarrow> jsstring option \<Rightarrow> (request \<Rightarrow> jserror + upstream_response)
    \<Rightarrow> event \<Rightarrow> (jserror + response) \<times> request list" where
  "handler P CWA_API_KEY fetch event =
     (case queryStringParameters event of
        None \<Rightarrow> (Inl (JSError (TypeError_message P DestructureNullish)), [])
      | Some params \<Rightarrow>
          (let datasetId = map_of params (str ''datasetId'');
               otherParams = filter (\<lambda>p. fst p \<noteq> str ''datasetId'') params
           in case datasetId of
                None \<Rightarrow> (missing_datasetId P, [])
              | Some d \<Rightarrow>
                  if \<not> qval_ToBoolean datasetId then (missing_datasetId P, [])
                  else
                    (let req = cwa_request CWA_API_KEY d otherParams
                     in (catch P (try_block P fetch req d), [req]))))"

definition handler_netlify :: "'n platform \<Rightarrow> jsstring option
    \<Rightarrow> (request \<Rightarrow> jserror + upstream_response) \<Rightarrow> event \<Rightarrow> (jserror + response) \<times> request list" where
  "handler_netlify P CWA_API_KEY fetch event =
     (case queryStringParameters event of
        None \<Rightarrow> (Inl (JSError (TypeError_message P DestructureNullish)), [])
      | Some params \<Rightarrow>
          (let datasetId = map_of params (str ''datasetId'');
               otherParams = filter (\<lambda>p. fst p \<noteq> str ''datasetId'') params
           in case datasetId of
                None \<Rightarrow> (missing_datasetId P, [])
              | Some d \<Rightarrow>
                  if \<not> qval_ToBoolean datasetId then (missing_datasetId P, [])
                  else
                    (let req = cwa_request CWA_API_KEY d otherParams
                     in (catch P (try_block_netlify P fetch req), [req]))))"

text \<open>A response that carries the two fixed headers and a serialized JSON value.\<close>

definition json_response :: "'n platform \<Rightarrow> response \<Rightarrow> bool" where
  "json_response P r = (headers r = json_headers \<and> body r \<in> range (SerializeJSONProperty P))"

section \<open>A concrete platform for evaluation\<close>

text \<open>
  An engine whose numbers are the integers: a literal denotes its integer part, and the
  exception messages are fixed texts. Its call stack is tiny (\<open>JSON.stringify\<close> descends
  three levels, where a real engine descends thousands), so that evaluation can reach the
  RangeError. The claims are proved for every platform; this one evaluates them on
  concrete inputs.
\<close>

definition digits_value :: "jsstring \<Rightarrow> int" where
  "digits_value s = foldl (\<lambda>a c. 10 * a + (uint c - 48)) 0 (takeWhile is_digit s)"

definition integer_of_literal :: "jsstring \<Rightarrow> int" where
  "integer_of_literal s =
     (case s of
        [] \<Rightarrow> 0
      | c # cs \<Rightarrow> if c = 0x2D then - digits_value cs else digits_value (c # cs))"

definition integer_to_string :: "int \<Rightarrow> jsstring" where
  "integer_to_string n = (if n < 0 then [0x2D] else []) @ decimal (nat \<bar>n\<bar>)"

definition sample_platform :: "int platform" where
  "sample_platform =
     \<lparr> StringToNumber = integer_of_literal,
       NumberToString = integer_to_string,
       isFinite = (\<lambda>n. True),
       NumberToBoolean = (\<lambda>n. n \<noteq> 0),
       SyntaxError_message = (\<lambda>s. str ''Unexpected token in JSON''),
       TypeError_message = (\<lambda>k. case k of
           DestructureNullish \<Rightarrow> str ''Cannot destructure property datasetId of null''
         | PropertyOfNull \<Rightarrow> str ''Cannot read properties of null (reading message)''
         | ObjectToPrimitive \<Rightarrow> str ''Cannot convert object to primitive value''),
       RangeError_message = str ''Maximum call stack size exceeded'',
       stringify_headroom = 1,
       join_depth_limit = 3 \<rparr>"

text \<open>
  A reply made of \<open>n + 1\<close> opening brackets and as many closing ones, and the value it
  denotes: \<open>n + 1\<close> arrays nested in one another, the innermost empty.
\<close>

fun nested :: "nat \<Rightarrow> 'n json" where
  "nested 0 = JArr []"
| "nested (Suc n) = JArr [nested n]"

definition nested_text :: "nat \<Rightarrow> jsstring" where
  "nested_text n = replicate (Suc n) 0x5B @ replicate (Suc n) 0x5D"

section \<open>Unfolding the handler\<close>

lemmas quote_defs = QuoteJSONString_def quote_unit_def is_surrogate_def
      is_high_surrogate_def is_low_surrogate_def
lemmas parse_defs = JSON_parse_def skip_ws_def is_ws_def cons_result_def object_of_members_def
  CreateDataProperty_def array_index_def is_digit_def expect_def

lemma depth_json_of_qval: "depth (json_of_qval d :: 'n json) \<le> 1"
proof (cases d)
  case (QStr s)
  then show ?thesis by simp
next
  case (QArr xs)
  have "depth_elements (map JStr xs :: 'n json list) = 0"
    by (induction xs) simp_all
  with QArr show ?thesis by simp
qed

lemma respond_eq:
  "respond P st v =
     (if depth v \<le> stringify_depth_limit P
      then Inr \<lparr> statusCode = st, headers = json_headers, body = SerializeJSONProperty P v \<rparr>
      else Inl (JSError (RangeError_message P)))"
  by (simp add: respond_def JSON_stringify_def)

lemma respond_small:
  "depth v \<le> 2 \<Longrightarrow>
     respond P st v
       = Inr \<lparr> statusCode = st, headers = json_headers, body = SerializeJSONProperty P v \<rparr>"
  by (simp add: respond_eq stringify_depth_limit_def)

lemma missing_datasetId_eq:
  "missing_datasetId P =
     Inr \<lparr> statusCode = 400, headers = json_headers,
           body = SerializeJSONProperty P
             (JObj [(str ''error'', JStr (str ''Missing datasetId in query parameters.''))]) \<rparr>"
  unfolding missing_datasetId_def by (rule respond_small) simp

lemma internal_error_eq:
  "internal_error P error =
     Inr \<lparr> statusCode = 500, headers = json_headers,
           body = SerializeJSONProperty P
             (JObj [(str ''error'',
                     JStr (str ''Serverless Function Internal Error: '' @ message error))]) \<rparr>"
  unfolding internal_error_def by (rule respond_small) simp

lemma parse_failure_eq:
  "parse_failure P jsonParseError rawResponseText datasetId =
     Inr \<lparr> statusCode = 500, headers = json_headers,
           body = SerializeJSONProperty P
             (JObj [(str ''error'',
                     JStr (str ''Serverless Function Internal Error: Failed to parse CWA API response as JSON. Original error: ''
                           @ message jsonParseError)),
                    (str ''raw_cwa_response_snippet'', JStr (take 200 rawResponseText @ str ''...'')),
                    (str ''datasetId'', json_of_qval datasetId)]) \<rparr>"
  unfolding parse_failure_def
  using depth_json_of_qval [of datasetId, where 'n = 'n]
  by (intro respond_small) (simp del: json_of_qval.simps)

lemma upstream_error_eq:
  "upstream_error P st m data =
     (if Suc (depth data) \<le> stringify_depth_limit P
      then Inr \<lparr> statusCode = st, headers = json_headers,
                 body = SerializeJSONProperty P
                   (JObj [(str ''error'',
                           JStr (str ''CWA API error ('' @ decimal st @ str ''): '' @ m)),
                          (str ''cwa_response'', data)]) \<rparr>
      else Inl (JSError (RangeError_message P)))"
  by (simp add: upstream_error_def respond_eq del: SerializeJSONProperty.simps)

lemma success_eq:
  "success P data =
     (if depth data \<le> stringify_depth_limit P
      then Inr \<lparr> statusCode = 200, headers = json_headers,
                 body = SerializeJSONProperty P data \<rparr>
      else Inl (JSError (RangeError_message P)))"
  by (simp add: success_def respond_eq)

lemma catch_returns: "\<exists>r. catch P t = Inr r"
  by (cases t) (simp_all add: catch_def internal_error_eq del: SerializeJSONProperty.simps)

lemma handler_validated:
  assumes "queryStringParameters event = Some params"
    and "map_of params (str ''datasetId'') = Some d"
    and "qval_ToBoolean (Some d)"
  shows "handler P key fetch event =
    (catch P (try_block P fetch
        (cwa_request key d (filter (\<lambda>p. fst p \<noteq> str ''datasetId'') params)) d),
     [cwa_request key d (filter (\<lambda>p. fst p \<noteq> str ''datasetId'') params)])"
  using assms by (simp add: handler_def Let_def)

lemma handler_netlify_validated:
  assumes "queryStringParameters event = Some params"
    and "map_of params (str ''datasetId'') = Some d"
    and "qval_ToBoolean (Some d)"
  shows "handler_netlify P key fetch event =
    (catch P (try_block_netlify P fetch
        (cwa_request key d (filter (\<lambda>p. fst p \<noteq> str ''datasetId'') params))),
     [cwa_request key d (filter (\<lambda>p. fst p \<noteq> str ''datasetId'') params)])"
  using assms by (simp add: handler_netlify_def Let_def)

lemma handler_rejected:
  assumes "queryStringParameters event = Some params"
    and "\<not> qval_ToBoolean (map_of params (str ''datasetId''))"
  shows "handler P key fetch event = (missing_datasetId P, [])"
    and "handler_netlify P key fetch event = (missing_datasetId P, [])"
  using assms by (auto simp: handler_def handler_netlify_def Let_def split: option.splits)

lemma missing_body_parse:
  "JSON_parse P (str ''{\"error\":\"Missing datasetId in query parameters.\"}'') =
     Inr (JObj [(str ''error'', JStr (str ''Missing datasetId in query parameters.''))])"
  by (simp add: parse_defs str_def)

text \<open>An event whose \<open>queryStringParameters\<close> is an object is always answered by a response.\<close>

lemma handler_returns:
  assumes "queryStringParameters event = Some params"
  shows "\<exists>r calls. handler P key fetch event = (Inr r, calls)"
    and "\<exists>r calls. handler_netlify P key fetch event = (Inr r, calls)"
  using assms catch_returns [of P]
  by (auto simp: handler_def handler_netlify_def Let_def missing_datasetId_eq
      simp del: SerializeJSONProperty.simps split: option.splits)

lemmas url_defs = cwa_request_def cwaUrl_def cwaApiBaseUrl_def URLSearchParams_def
  URLSearchParams_toString_def serialize_pair_def form_urlencode_def percent_encode_byte_def
  form_unreserved_def utf8_encode_def hex_upper_def is_surrogate_def is_high_surrogate_def
  is_low_surrogate_def

lemma snd_handler_url:
  "map url (snd (handler P k1 f1 event)) = map url (snd (handler P k2 f2 event))"
  "map url (snd (handler_netlify P k1 f1 event)) = map url (snd (handler_netlify P k2 f2 event))"
  by (auto simp: handler_def handler_netlify_def Let_def cwa_request_def split: option.splits)

lemma try_block_cong:
  "fetch1 req1 = fetch2 req2 \<Longrightarrow> try_block P fetch1 req1 d = try_block P fetch2 req2 d"
  "fetch1 req1 = fetch2 req2 \<Longrightarrow> try_block_netlify P fetch1 req1 = try_block_netlify P fetch2 req2"
  by (simp_all add: try_block_def try_block_netlify_def)

lemma parse_foo_bar:
  "JSON_parse P (str ''{\"foo\":\"bar\"}'') = Inr (JObj [(str ''foo'', JStr (str ''bar''))])"
  by (simp add: parse_defs str_def)

lemma parse_not_found:
  "JSON_parse P (str ''{\"message\":\"not found\"}'') =
     Inr (JObj [(str ''message'', JStr (str ''not found''))])"
  by (simp add: parse_defs str_def)

lemma decimal_404: "decimal 404 = str ''404''"
  by (simp add: decimal.simps digit_char_def str_def)

lemmas handler_defs = handler_def handler_netlify_def Let_def try_block_def try_block_netlify_def
  catch_def ok_def message_or_unknown_def upstream_error_def internal_error_def success_def
  parse_failure_def missing_datasetId_def respond_def JSON_stringify_def
  stringify_depth_limit_def sample_platform_def

lemma parse_html:
  "JSON_parse P (str ''<html>error</html>'')
     = Inl (JSError (SyntaxError_message P (str ''<html>error</html>'')))"
  by (simp add: parse_defs scan_number_def scan_int_def str_def)

lemma parse_nested_4:
  "JSON_parse P (str ''{\"a\":{\"b\":{\"c\":{}}}}'')
     = Inr (JObj [(str ''a'', JObj [(str ''b'', JObj [(str ''c'', JObj [])])])])"
  by (simp add: parse_defs str_def)

lemma parse_toString_null:
  "JSON_parse P (str ''{\"message\":{\"toString\":null}}'') =
     Inr (JObj [(str ''message'', JObj [(str ''toString'', JNull)])])"
  by (simp add: parse_defs str_def)

lemma parse_nested_3:
  "JSON_parse P (str ''[[[]]]'') = Inr (JArr [JArr [JArr []]])"
  by (simp add: parse_defs str_def)

lemma depth_nested: "depth (nested n :: 'n json) = Suc n"
  by (induction n) simp_all

lemma parse_value_nested:
  "parse_value P (replicate (Suc n) 0x5B @ replicate (Suc n) 0x5D @ rest) = Some (nested n, rest)"
proof (induction n arbitrary: rest)
  case 0
  show ?case
    by (simp add: skip_ws_def is_ws_def)
next
  case (Suc n)
  let ?cs = "replicate n 0x5B @ 0x5D # 0x5D # replicate n 0x5D @ rest"
  have i: "parse_value P (0x5B # ?cs) = Some (nested n, 0x5D # rest)"
    using Suc.IH [of "0x5D # rest"] by (simp add: replicate_app_Cons_same)
  have e: "parse_elements P (0x5B # ?cs) = Some ([nested n], rest)"
    unfolding parse_elements.simps i by (simp add: skip_ws_def is_ws_def)
  have "parse_value P (0x5B # 0x5B # ?cs) = Some (JArr [nested n], rest)"
    by (simp add: e skip_ws_def is_ws_def del: parse_elements.simps)
  then show ?case
    by (simp add: replicate_app_Cons_same)
qed

lemma parse_nested: "JSON_parse P (nested_text n) = Inr (nested n)"
proof -
  have "parse_value P (0x5B # replicate n 0x5B @ replicate (Suc n) 0x5D) = Some (nested n, [])"
    using parse_value_nested [of P n "[]"] by simp
  then show ?thesis
    by (simp add: JSON_parse_def nested_text_def skip_ws_def is_ws_def del: parse_value.simps)
qed

section \<open>The parser consumes what it reads\<close>

lemma parse_string_chars_consumes:
  "parse_string_chars s = Some (t, rest) \<Longrightarrow> length rest < length s"
proof (induction s arbitrary: t rest rule: parse_string_chars.induct)
  case 1
  then show ?case by simp
next
  case (2 c cs)
  then show ?case
    by (fastforce simp: cons_result_def split: if_splits list.splits option.splits)
qed

lemma expect_consumes:
  "expect lit v s = Some (w, r) \<Longrightarrow> lit \<noteq> [] \<Longrightarrow> length r < length s"
  by (cases s) (auto simp: expect_def split: if_splits)

lemma scan_number_consumes:
  assumes "scan_number s = Some (a, r)"
  shows "length r < length s"
proof -
  have i: "length r' < length s'" if "scan_int s' = Some (a', r')" for s' a' r'
    using that length_dropWhile_le [of is_digit "tl s'"]
    by (cases s') (auto simp: scan_int_def split: if_splits)
  have f: "length r' \<le> length s'" if "scan_frac s' = Some (a', r')" for s' a' r'
    using that length_dropWhile_le [of is_digit "tl s'"]
    by (cases s') (auto simp: scan_frac_def split: if_splits)
  have g: "length (snd (scan_sign s')) \<le> length s'" for s'
    by (cases s') (auto simp: scan_sign_def)
  have e: "length r' \<le> length s'" if "scan_exp s' = Some (a', r')" for s' a' r'
  proof (cases s')
    case Nil
    with that show ?thesis by (simp add: scan_exp_def)
  next
    case (Cons c cs)
    with that g [of cs] length_dropWhile_le [of is_digit "snd (scan_sign cs)"] show ?thesis
      by (auto simp: scan_exp_def split: if_splits prod.splits)
  qed
  from assms show ?thesis
    by (cases s) (auto simp: scan_number_def split: option.splits if_splits dest!: i f e)
qed

lemma length_skip_ws: "length (skip_ws s) \<le> length s"
  by (simp add: skip_ws_def length_dropWhile_le)

lemma skip_ws_Cons_length: "skip_ws s = d # ds \<Longrightarrow> length ds < length s"
  using length_skip_ws [of s] by simp

lemma cons_result_Some:
  "cons_result x t = Some (ys, rest) \<longleftrightarrow> (\<exists>xs. t = Some (xs, rest) \<and> ys = x # xs)"
  by (auto simp: cons_result_def split: option.splits)

lemma parse_value_scalar:
  assumes "parse_value P (c # cs) = Some (v, r)" and "c \<noteq> 0x7B" and "c \<noteq> 0x5B"
  shows "length r < length (c # cs)"
proof -
  consider (s) "c = 0x22" | (t) "c \<noteq> 0x22" "c = 0x74" | (f) "c \<noteq> 0x22" "c \<noteq> 0x74" "c = 0x66"
    | (n) "c \<noteq> 0x22" "c \<noteq> 0x74" "c \<noteq> 0x66" "c = 0x6E"
    | (d) "c \<noteq> 0x22" "c \<noteq> 0x74" "c \<noteq> 0x66" "c \<noteq> 0x6E"
    by blast
  then show ?thesis
  proof cases
    case s
    with assms obtain t where "parse_string_chars cs = Some (t, r)"
      by (auto split: option.splits)
    from parse_string_chars_consumes [OF this] show ?thesis by simp
  next
    case t
    with assms have "expect (str ''true'') (JBool True) (c # cs) = Some (v, r)"
      by simp
    from expect_consumes [OF this] show ?thesis by (simp add: str_def)
  next
    case f
    with assms have "expect (str ''false'') (JBool False) (c # cs) = Some (v, r)"
      by simp
    from expect_consumes [OF this] show ?thesis by (simp add: str_def)
  next
    case n
    with assms have "expect (str ''null'') JNull (c # cs) = Some (v, r)"
      by simp
    from expect_consumes [OF this] show ?thesis by (simp add: str_def)
  next
    case d
    with assms obtain lit where "scan_number (c # cs) = Some (lit, r)"
      by (auto split: option.splits)
    from scan_number_consumes [OF this] show ?thesis .
  qed
qed

lemma parse_consumes:
  "parse_value P s = Some (v, r) \<Longrightarrow> length r < length s"
  "parse_elements P s = Some (vs, r) \<Longrightarrow> length r < length s"
  "parse_members P s = Some (ms, r) \<Longrightarrow> length r < length s"
proof (induction P s and P s and P s arbitrary: v r and vs r and ms r
    rule: parse_value_parse_elements_parse_members.induct)
  case (1 P)
  then show ?case by simp
next
  case (2 P c cs)
  show ?case
  proof (cases "c = 0x7B")
    case True
    with 2(3) obtain d ds where d: "skip_ws cs = d # ds"
      by (cases "skip_ws cs") auto
    show ?thesis
    proof (cases "d = 0x7D")
      case True
      with 2(3) \<open>c = 0x7B\<close> d skip_ws_Cons_length [OF d] show ?thesis
        by auto
    next
      case False
      with 2(3) \<open>c = 0x7B\<close> d obtain ms where "parse_members P (d # ds) = Some (ms, r)"
        by (auto simp del: parse_members.simps split: option.splits)
      from 2(1) [OF \<open>c = 0x7B\<close> d False this] skip_ws_Cons_length [OF d] show ?thesis
        by simp
    qed
  next
    case False
    note nb = this
    show ?thesis
    proof (cases "c = 0x5B")
      case True
      with 2(3) nb obtain d ds where d: "skip_ws cs = d # ds"
        by (cases "skip_ws cs") auto
      show ?thesis
      proof (cases "d = 0x5D")
        case True
        with 2(3) nb \<open>c = 0x5B\<close> d skip_ws_Cons_length [OF d] show ?thesis
          by auto
      next
        case False
        with 2(3) nb \<open>c = 0x5B\<close> d obtain vs where "parse_elements P (d # ds) = Some (vs, r)"
          by (auto simp del: parse_elements.simps split: option.splits)
        from 2(2) [OF nb \<open>c = 0x5B\<close> d False this] skip_ws_Cons_length [OF d] show ?thesis
          by simp
      qed
    next
      case False
      from parse_value_scalar [OF 2(3) nb False] show ?thesis .
    qed
  qed
next
  case (3 P)
  then show ?case by simp
next
  case (4 P c cs)
  from 4(3) obtain v' r' where pv: "parse_value P (c # cs) = Some (v', r')"
    by (auto simp del: parse_value.simps split: option.splits)
  with 4(3) have g: "length r' \<le> length cs"
    by (auto simp del: parse_value.simps split: if_splits)
  from 4(3) pv g obtain d ds where d: "skip_ws r' = d # ds"
    by (cases "skip_ws r'") (auto simp del: parse_value.simps)
  show ?case
  proof (cases "d = 0x2C")
    case True
    with 4(3) pv g d obtain vs' where "parse_elements P (skip_ws ds) = Some (vs', r)"
      by (auto simp: cons_result_Some simp del: parse_value.simps)
    from 4(2) [OF pv refl g d True this] length_skip_ws [of ds] skip_ws_Cons_length [OF d] g
    show ?thesis by simp
  next
    case False
    with 4(3) pv g d have "r = ds"
      by (auto simp del: parse_value.simps split: if_splits)
    with skip_ws_Cons_length [OF d] g show ?thesis by simp
  qed
next
  case (5 P)
  then show ?case by simp
next
  case (6 P c cs)
  from 6(3) have c: "c = 0x22"
    by (auto simp del: parse_value.simps split: if_splits)
  with 6(3) obtain k r0 where ps: "parse_string_chars cs = Some (k, r0)"
    by (auto simp del: parse_value.simps split: option.splits)
  with 6(3) c obtain e es where e: "skip_ws r0 = e # es"
    by (cases "skip_ws r0") (auto simp del: parse_value.simps)
  with 6(3) c ps have e58: "e = 0x3A"
    by (auto simp del: parse_value.simps split: if_splits)
  with 6(3) c ps e obtain v' r' where pv: "parse_value P (skip_ws es) = Some (v', r')"
    by (auto simp del: parse_value.simps split: option.splits)
  with 6(3) c ps e e58 have g: "length r' < length es"
    by (auto simp del: parse_value.simps split: if_splits)
  from 6(3) c ps e e58 pv g obtain d ds where d: "skip_ws r' = d # ds"
    by (cases "skip_ws r'") (auto simp del: parse_value.simps)
  have l: "length es < length cs"
    using parse_string_chars_consumes [OF ps] skip_ws_Cons_length [OF e] by simp
  show ?case
  proof (cases "d = 0x2C")
    case True
    with 6(3) c ps e e58 pv g d obtain ms' where
      "parse_members P (skip_ws ds) = Some (ms', r)"
      by (auto simp: cons_result_Some simp del: parse_value.simps)
    from 6(2) [OF c ps refl e e58 pv refl g d True this]
      length_skip_ws [of ds] skip_ws_Cons_length [OF d] g l
    show ?thesis by simp
  next
    case False
    with 6(3) c ps e e58 pv g d have "r = ds"
      by (auto simp del: parse_value.simps split: if_splits)
    with skip_ws_Cons_length [OF d] g l show ?thesis by simp
  qed
qed

lemma parse_elements_unguarded:
  "parse_elements P (c # cs) =
     (case parse_value P (c # cs) of
        None \<Rightarrow> None
      | Some (v, r) \<Rightarrow>
          (case skip_ws r of
             [] \<Rightarrow> None
           | d # ds \<Rightarrow>
               if d = 0x2C then cons_result v (parse_elements P (skip_ws ds))
               else if d = 0x5D then Some ([v], ds)
               else None))"
proof (cases "parse_value P (c # cs)")
  case None
  then show ?thesis
    by (simp del: parse_value.simps)
next
  case (Some p)
  obtain v r where p: "p = (v, r)"
    by (cases p)
  from parse_consumes(1) [of P "c # cs" v r] Some p have "length r \<le> length cs"
    by simp
  with Some p show ?thesis
    by (simp del: parse_value.simps)
qed

lemma parse_members_unguarded:
  "parse_members P (0x22 # cs) =
     (case parse_string_chars cs of
        None \<Rightarrow> None
      | Some (k, r0) \<Rightarrow>
          (case skip_ws r0 of
             [] \<Rightarrow> None
           | e # es \<Rightarrow>
               if e = 0x3A then
                 (case parse_value P (skip_ws es) of
                    None \<Rightarrow> None
                  | Some (v, r) \<Rightarrow>
                      (case skip_ws r of
                         [] \<Rightarrow> None
                       | d # ds \<Rightarrow>
                           if d = 0x2C then cons_result (k, v) (parse_members P (skip_ws ds))
                           else if d = 0x7D then Some ([(k, v)], ds)
                           else None))
               else None))"
proof -
  have "length r < length es" if "parse_value P (skip_ws es) = Some (v, r)" for es v r
    using parse_consumes(1) [OF that] length_skip_ws [of es] by simp
  then show ?thesis
    by (auto simp del: parse_value.simps split: option.splits list.splits)
qed

section \<open>\<open>JSON.parse\<close> accepts what \<open>JSON.stringify\<close> writes\<close>

lemma unat_of_nat16: "n < 65536 \<Longrightarrow> unat (word_of_nat n :: 16 word) = n"
  by (simp add: unat_of_nat)

lemma unat16_less: "unat (c :: 16 word) < 65536"
  using unsigned_less [of c, where 'a = nat] by simp

lemma hex_value_lower:
  assumes "d < 16"
  shows "hex_value (hex_lower d) = Some d"
proof -
  have "unat (hex_lower d) = (if d < 10 then 48 + d else 87 + d)"
    using assms by (simp add: hex_lower_def unat_of_nat16 del: of_nat_add)
  then show ?thesis
    using assms by (simp add: hex_value_def word_le_nat_alt)
qed

lemma nibbles:
  "(n::nat) div 4096 * 4096 + n div 256 mod 16 * 256 + n div 16 mod 16 * 16 + n mod 16 = n"
proof -
  have a: "n div 16 div 16 = n div 256" and b: "n div 256 div 16 = n div 4096"
    by (simp_all add: div_mult2_eq [symmetric])
  have "n div 16 = n div 256 * 16 + n div 16 mod 16"
    using div_mult_mod_eq [of "n div 16" 16] a by simp
  moreover have "n div 256 = n div 4096 * 16 + n div 256 mod 16"
    using div_mult_mod_eq [of "n div 256" 16] b by simp
  moreover have "n = n div 16 * 16 + n mod 16"
    by simp
  ultimately show ?thesis
    by linarith
qed

lemma hex4_escape:
  "hex4 (hex_lower (unat c div 4096)) (hex_lower (unat c div 256 mod 16))
        (hex_lower (unat c div 16 mod 16)) (hex_lower (unat c mod 16)) = Some (c :: 16 word)"
proof -
  have "unat c div 4096 < 16"
    using unat16_less [of c] by simp
  then show ?thesis
    by (simp add: hex4_def hex_value_lower nibbles)
qed

lemma parse_string_chars_unit:
  "parse_string_chars (quote_unit c @ r) = cons_result c (parse_string_chars r)"
  by (simp add: quote_unit_def unicode_escape_def hex4_escape unescape_def)

lemma surrogate_plain:
  assumes "is_surrogate c"
  shows "c \<noteq> 0x22" and "c \<noteq> 0x5C" and "\<not> c < 0x20"
  using assms
  by (auto simp: is_surrogate_def is_high_surrogate_def is_low_surrogate_def
      word_le_nat_alt word_less_nat_alt)

lemma parse_string_chars_plain:
  "c \<noteq> 0x22 \<Longrightarrow> c \<noteq> 0x5C \<Longrightarrow> \<not> c < 0x20 \<Longrightarrow>
     parse_string_chars (c # r) = cons_result c (parse_string_chars r)"
  by simp

lemma parse_string_chars_quote_units:
  "parse_string_chars (quote_units s @ 0x22 # rest) = Some (s, rest)"
proof (induction s rule: quote_units.induct)
  case 1
  show ?case by simp
next
  case (2 c)
  show ?case
    by (simp add: parse_string_chars_unit cons_result_def)
next
  case (3 c d cs)
  show ?case
  proof (cases "is_high_surrogate c \<and> is_low_surrogate d")
    case True
    then have c: "is_surrogate c" and d: "is_surrogate d"
      by (simp_all add: is_surrogate_def)
    have "quote_units (c # d # cs) @ 0x22 # rest = c # d # (quote_units cs @ 0x22 # rest)"
      using True by simp
    then have "parse_string_chars (quote_units (c # d # cs) @ 0x22 # rest)
        = cons_result c (cons_result d (parse_string_chars (quote_units cs @ 0x22 # rest)))"
      by (simp only: parse_string_chars_plain [OF surrogate_plain [OF c]]
          parse_string_chars_plain [OF surrogate_plain [OF d]])
    then show ?thesis
      using 3(1) [OF True] by (simp add: cons_result_def)
  next
    case False
    then have "quote_units (c # d # cs) @ 0x22 # rest
        = quote_unit c @ (quote_units (d # cs) @ 0x22 # rest)"
      by auto
    then have "parse_string_chars (quote_units (c # d # cs) @ 0x22 # rest)
        = cons_result c (parse_string_chars (quote_units (d # cs) @ 0x22 # rest))"
      by (simp only: parse_string_chars_unit)
    then show ?thesis
      using 3(2) [OF False] by (simp add: cons_result_def)
  qed
qed

lemma delimited_simps [simp]:
  "delimited []" "delimited (0x2C # r)" "delimited (0x5D # r)" "delimited (0x7D # r)"
  by (simp_all add: delimited_def)

lemma digits_append:
  assumes "delimited rest"
  shows "takeWhile is_digit (xs @ rest) = takeWhile is_digit xs"
    and "dropWhile is_digit (xs @ rest) = dropWhile is_digit xs @ rest"
proof -
  have "takeWhile is_digit rest = []" and "dropWhile is_digit rest = rest"
    using assms by (cases rest; auto simp: delimited_def is_digit_def)+
  then show "takeWhile is_digit (xs @ rest) = takeWhile is_digit xs"
    and "dropWhile is_digit (xs @ rest) = dropWhile is_digit xs @ rest"
    by (induction xs) simp_all
qed

lemma scan_int_append:
  assumes "scan_int s = Some (a, r)" and "delimited rest"
  shows "scan_int (s @ rest) = Some (a, r @ rest)"
  using assms
  by (cases s) (auto simp: scan_int_def digits_append split: if_splits)

lemma scan_frac_append:
  assumes "scan_frac s = Some (a, r)" and "delimited rest"
  shows "scan_frac (s @ rest) = Some (a, r @ rest)"
proof (cases s)
  case Nil
  then show ?thesis
    using assms by (cases rest) (auto simp: scan_frac_def delimited_def)
next
  case (Cons c cs)
  then show ?thesis
    using assms by (auto simp: scan_frac_def digits_append split: if_splits)
qed

lemma scan_sign_append:
  assumes "scan_sign s = (sg, ds)" and "s \<noteq> []"
  shows "scan_sign (s @ rest) = (sg, ds @ rest)"
  using assms by (cases s) (auto simp: scan_sign_def split: if_splits)

lemma scan_exp_append:
  assumes "scan_exp s = Some (a, r)" and "delimited rest"
  shows "scan_exp (s @ rest) = Some (a, r @ rest)"
proof (cases s)
  case Nil
  then show ?thesis
    using assms by (cases rest) (auto simp: scan_exp_def delimited_def)
next
  case (Cons c cs)
  show ?thesis
  proof (cases "c = 0x65 \<or> c = 0x45")
    case False
    then show ?thesis
      using assms Cons by (auto simp: scan_exp_def)
  next
    case True
    obtain sg ds where sg: "scan_sign cs = (sg, ds)"
      by (cases "scan_sign cs")
    have "cs \<noteq> []"
      using assms(1) Cons True sg by (auto simp: scan_exp_def scan_sign_def split: if_splits)
    from scan_sign_append [OF sg this, of rest] show ?thesis
      using assms Cons True sg by (auto simp: scan_exp_def digits_append split: if_splits)
  qed
qed

lemma scan_number_append:
  assumes "scan_number s = Some (a, r)" and "delimited rest"
  shows "scan_number (s @ rest) = Some (a, r @ rest)"
proof -
  have ne: "s \<noteq> []"
    using assms(1) by (auto simp: scan_number_def scan_int_def)
  then obtain c cs where s: "s = c # cs"
    by (cases s) auto
  define s0 where "s0 = (if c = 0x2D then cs else s)"
  define minus where "minus = (if c = 0x2D then [c] else [])"
  have pre: "(case s of c # cs \<Rightarrow> if c = 0x2D then ([c], cs) else ([], s) | [] \<Rightarrow> ([], s)) = (minus, s0)"
    and pre': "(case s @ rest of c # cs \<Rightarrow> if c = 0x2D then ([c], cs) else ([], s @ rest)
                 | [] \<Rightarrow> ([], s @ rest)) = (minus, s0 @ rest)"
    by (simp_all add: s s0_def minus_def)
  from assms(1) obtain i s1 f s2 e where
    i: "scan_int s0 = Some (i, s1)" and f: "scan_frac s1 = Some (f, s2)"
    and e: "scan_exp s2 = Some (e, r)" and a: "a = minus @ i @ f @ e"
    unfolding scan_number_def pre by (auto split: option.splits)
  show ?thesis
    unfolding scan_number_def pre'
    using scan_int_append [OF i assms(2)] scan_frac_append [OF f assms(2)]
      scan_exp_append [OF e assms(2)] a
    by simp
qed

lemma scan_number_hd:
  assumes "scan_number s = Some (a, r)"
  shows "\<exists>c cs. s = c # cs \<and> (c = 0x2D \<or> (0x30 \<le> c \<and> c \<le> 0x39))"
  using assms
  by (cases s)
    (auto simp: scan_number_def scan_int_def is_digit_def split: if_splits option.splits)

lemma skip_ws_start: "\<not> is_ws c \<Longrightarrow> skip_ws (c # cs) = c # cs"
  by (simp add: skip_ws_def)

lemma number_start:
  assumes "c = 0x2D \<or> (0x30 \<le> c \<and> c \<le> 0x39)"
  shows "value_start c" and "c \<noteq> 0x7B" and "c \<noteq> 0x5B" and "c \<noteq> 0x22"
    and "c \<noteq> 0x74" and "c \<noteq> 0x66" and "c \<noteq> 0x6E"
  using assms by (auto simp: value_start_def is_ws_def word_le_nat_alt)

lemma parse_value_number:
  assumes "number_literals_ok P" and "isFinite P n" and "delimited rest"
  shows "parse_value P (NumberToString P n @ rest)
    = Some (JNum (StringToNumber P (NumberToString P n)), rest)"
proof -
  have s: "scan_number (NumberToString P n) = Some (NumberToString P n, [])"
    using assms(1,2) by (simp add: number_literals_ok_def)
  from scan_number_hd [OF s] obtain c cs where
    c: "NumberToString P n = c # cs" "c = 0x2D \<or> (0x30 \<le> c \<and> c \<le> 0x39)"
    by blast
  have "scan_number (c # cs @ rest) = Some (NumberToString P n, rest)"
    using scan_number_append [OF s assms(3)] c(1) by simp
  then show ?thesis
    using number_start [OF c(2)] c(1) by simp
qed

lemma stringify_start:
  assumes "number_literals_ok P"
  shows "\<exists>c cs. SerializeJSONProperty P v = c # cs \<and> value_start c"
proof (cases v)
  case (JNum n)
  show ?thesis
  proof (cases "isFinite P n")
    case True
    then have "scan_number (NumberToString P n) = Some (NumberToString P n, [])"
      using assms by (simp add: number_literals_ok_def)
    from scan_number_hd [OF this] show ?thesis
      using JNum True number_start(1) by auto
  next
    case False
    then show ?thesis
      using JNum by (simp add: str_def value_start_def is_ws_def)
  qed
qed (simp_all add: str_def value_start_def is_ws_def QuoteJSONString_def)

lemma join_Cons: "ys \<noteq> [] \<Longrightarrow> join sep (x # ys) = x @ sep @ join sep ys"
  by (cases ys) simp_all

lemma elements_start:
  assumes "number_literals_ok P" and "vs \<noteq> []"
  shows "\<exists>c cs. join [0x2C] (stringify_elements P vs) = c # cs \<and> value_start c"
proof -
  obtain v ws where vs: "vs = v # ws"
    using assms(2) by (cases vs) auto
  from stringify_start [OF assms(1), of v] obtain c cs where
    "SerializeJSONProperty P v = c # cs" "value_start c"
    by blast
  then show ?thesis
    unfolding vs by (cases ws) simp_all
qed

lemma stringify_members_Nil: "stringify_members P kvs = [] \<longleftrightarrow> kvs = []"
  by (cases kvs) auto

lemma stringify_elements_Nil: "stringify_elements P vs = [] \<longleftrightarrow> vs = []"
  by (cases vs) auto

lemma members_start:
  assumes "kvs \<noteq> []"
  shows "\<exists>cs. join [0x2C] (stringify_members P kvs) = 0x22 # cs"
proof -
  obtain k v ws where kvs: "kvs = (k, v) # ws"
    using assms by (cases kvs) auto
  show ?thesis
  proof (cases "ws = []")
    case True
    then show ?thesis
      unfolding kvs by (simp add: QuoteJSONString_def)
  next
    case False
    then have "stringify_members P ws \<noteq> []"
      by (simp add: stringify_members_Nil)
    from join_Cons [OF this] show ?thesis
      unfolding kvs by (simp add: QuoteJSONString_def)
  qed
qed

lemma parse_value_array:
  assumes "value_start c" and "parse_elements P (c # cs) = Some (vs, rest)"
  shows "parse_value P (0x5B # c # cs) = Some (JArr vs, rest)"
  using assms by (simp add: skip_ws_start value_start_def del: parse_elements.simps)

lemma parse_value_object:
  assumes "parse_members P (0x22 # cs) = Some (ms, rest)"
  shows "parse_value P (0x7B # 0x22 # cs) = Some (JObj (object_of_members ms), rest)"
  using assms by (simp add: skip_ws_start is_ws_def del: parse_members.simps)

lemma parse_elements_last:
  assumes "parse_value P (c # cs) = Some (v, 0x5D # rest)" and "length rest < length cs"
  shows "parse_elements P (c # cs) = Some ([v], rest)"
  using assms by (simp add: skip_ws_start is_ws_def del: parse_value.simps)

lemma parse_elements_more:
  assumes "parse_value P (c # cs) = Some (v, 0x2C # d # ds)"
    and "length (0x2C # d # ds) \<le> length cs"
    and "value_start d" and "parse_elements P (d # ds) = Some (vs, rest)"
  shows "parse_elements P (c # cs) = Some (v # vs, rest)"
proof -
  have "parse_elements P (c # cs) = cons_result v (parse_elements P (d # ds))"
    using assms(1-3)
    by (subst parse_elements.simps)
      (simp add: skip_ws_start is_ws_def value_start_def
        del: parse_value.simps parse_elements.simps)
  then show ?thesis
    using assms(4) by (simp add: cons_result_def del: parse_elements.simps)
qed

lemma parse_members_last:
  assumes "parse_string_chars cs = Some (k, 0x3A # e # es)" and "value_start e"
    and "parse_value P (e # es) = Some (v, 0x7D # rest)" and "length rest < length es"
  shows "parse_members P (0x22 # cs) = Some ([(k, v)], rest)"
  using assms
  by (simp add: skip_ws_start is_ws_def value_start_def del: parse_value.simps)

lemma parse_members_more:
  assumes "parse_string_chars cs = Some (k, 0x3A # e # es)" and "value_start e"
    and "parse_value P (e # es) = Some (v, 0x2C # 0x22 # ds)"
    and "length (0x2C # 0x22 # ds) < length (e # es)"
    and "parse_members P (0x22 # ds) = Some (ms, rest)"
  shows "parse_members P (0x22 # cs) = Some ((k, v) # ms, rest)"
proof -
  have "parse_members P (0x22 # cs) = cons_result (k, v) (parse_members P (0x22 # ds))"
    using assms(1-4)
    by (subst parse_members.simps)
      (simp add: skip_ws_start is_ws_def value_start_def
        del: parse_value.simps parse_members.simps)
  then show ?thesis
    using assms(5) by (simp add: cons_result_def del: parse_members.simps)
qed

lemma stringify_parses:
  "number_literals_ok P \<Longrightarrow> delimited rest \<Longrightarrow>
     \<exists>v'. parse_value P (SerializeJSONProperty P v @ rest) = Some (v', rest)"
  and "number_literals_ok P \<Longrightarrow> vs \<noteq> [] \<Longrightarrow>
     \<exists>vs'. parse_elements P (join [0x2C] (stringify_elements P vs) @ 0x5D # rest) = Some (vs', rest)"
  and "number_literals_ok P \<Longrightarrow> kvs \<noteq> [] \<Longrightarrow>
     \<exists>ms. parse_members P (join [0x2C] (stringify_members P kvs) @ 0x7D # rest) = Some (ms, rest)"
proof (induction P v and P vs and P kvs arbitrary: rest and rest and rest
    rule: SerializeJSONProperty_stringify_elements_stringify_members.induct)
  case (1 P)
  show ?case by (simp add: str_def expect_def)
next
  case (2 P b)
  show ?case by (simp add: str_def expect_def)
next
  case (3 P n)
  show ?case
  proof (cases "isFinite P n")
    case True
    with parse_value_number [OF 3(1) True 3(2)] show ?thesis
      by simp
  next
    case False
    then show ?thesis by (simp add: str_def expect_def)
  qed
next
  case (4 P s)
  show ?case
    by (simp add: QuoteJSONString_def parse_string_chars_quote_units)
next
  case (5 P vs)
  show ?case
  proof (cases "vs = []")
    case True
    then show ?thesis by (simp add: skip_ws_start is_ws_def)
  next
    case False
    from elements_start [OF 5(2) False] obtain c cs where
      j: "join [0x2C] (stringify_elements P vs) = c # cs" and c: "value_start c"
      by blast
    from 5(1) [OF 5(2) False, of rest] obtain vs' where
      "parse_elements P (c # cs @ 0x5D # rest) = Some (vs', rest)"
      unfolding j by auto
    from parse_value_array [OF c this] show ?thesis
      by (simp add: j del: parse_value.simps)
  qed
next
  case (6 P kvs)
  show ?case
  proof (cases "kvs = []")
    case True
    then show ?thesis by (simp add: skip_ws_start is_ws_def)
  next
    case False
    from members_start [OF False] obtain cs where
      j: "join [0x2C] (stringify_members P kvs) = 0x22 # cs"
      by blast
    from 6(1) [OF 6(2) False, of rest] obtain ms where
      "parse_members P (0x22 # cs @ 0x7D # rest) = Some (ms, rest)"
      unfolding j by auto
    from parse_value_object [OF this] show ?thesis
      by (simp add: j del: parse_value.simps)
  qed
next
  case (7 P)
  then show ?case by simp
next
  case (8 P v vs)
  from stringify_start [OF 8(3), of v] obtain c cs where
    s: "SerializeJSONProperty P v = c # cs" and c: "value_start c"
    by blast
  show ?case
  proof (cases "vs = []")
    case True
    from 8(1) [OF 8(3), of "0x5D # rest"] obtain v' where
      "parse_value P (c # cs @ 0x5D # rest) = Some (v', 0x5D # rest)"
      unfolding s by auto
    from parse_elements_last [OF this] show ?thesis
      using True by (simp add: s del: parse_elements.simps)
  next
    case False
    from elements_start [OF 8(3) False] obtain d ds where
      j: "join [0x2C] (stringify_elements P vs) = d # ds" and d: "value_start d"
      by blast
    have e: "stringify_elements P vs \<noteq> []"
      using False by (simp add: stringify_elements_Nil)
    from 8(1) [OF 8(3), of "0x2C # d # ds @ 0x5D # rest"] obtain v' where
      v: "parse_value P (c # cs @ 0x2C # d # ds @ 0x5D # rest)
          = Some (v', 0x2C # d # ds @ 0x5D # rest)"
      unfolding s by auto
    from 8(2) [OF 8(3) False, of rest] obtain vs' where
      "parse_elements P (d # ds @ 0x5D # rest) = Some (vs', rest)"
      unfolding j by auto
    from parse_elements_more [OF v _ d this] show ?thesis
      by (simp add: join_Cons [OF e] s j del: parse_elements.simps)
  qed
next
  case (9 P)
  then show ?case by simp
next
  case (10 P k v kvs)
  from stringify_start [OF 10(3), of v] obtain c cs where
    s: "SerializeJSONProperty P v = c # cs" and c: "value_start c"
    by blast
  show ?case
  proof (cases "kvs = []")
    case True
    from 10(1) [OF 10(3), of "0x7D # rest"] obtain v' where
      v: "parse_value P (c # cs @ 0x7D # rest) = Some (v', 0x7D # rest)"
      unfolding s by auto
    have "parse_string_chars (quote_units k @ 0x22 # 0x3A # c # cs @ 0x7D # rest)
        = Some (k, 0x3A # c # cs @ 0x7D # rest)"
      by (rule parse_string_chars_quote_units)
    from parse_members_last [OF this c v] show ?thesis
      using True by (simp add: s QuoteJSONString_def del: parse_members.simps)
  next
    case False
    from members_start [OF False] obtain ds where
      j: "join [0x2C] (stringify_members P kvs) = 0x22 # ds"
      by blast
    have e: "stringify_members P kvs \<noteq> []"
      using False by (simp add: stringify_members_Nil)
    from 10(1) [OF 10(3), of "0x2C # 0x22 # ds @ 0x7D # rest"] obtain v' where
      v: "parse_value P (c # cs @ 0x2C # 0x22 # ds @ 0x7D # rest)
          = Some (v', 0x2C # 0x22 # ds @ 0x7D # rest)"
      unfolding s by auto
    from 10(2) [OF 10(3) False, of rest] obtain ms where
      m: "parse_members P (0x22 # ds @ 0x7D # rest) = Some (ms, rest)"
      unfolding j by auto
    have "parse_string_chars
          (quote_units k @ 0x22 # 0x3A # c # cs @ 0x2C # 0x22 # ds @ 0x7D # rest)
        = Some (k, 0x3A # c # cs @ 0x2C # 0x22 # ds @ 0x7D # rest)"
      by (rule parse_string_chars_quote_units)
    from parse_members_more [OF this c v _ m] show ?thesis
      by (simp add: join_Cons [OF e] s j QuoteJSONString_def del: parse_members.simps)
  qed
qed

lemma JSON_parse_stringify:
  assumes "number_literals_ok P"
  shows "\<exists>v'. JSON_parse P (SerializeJSONProperty P v) = Inr v'"
proof -
  from stringify_start [OF assms, of v] obtain c cs where
    s: "SerializeJSONProperty P v = c # cs" and c: "value_start c"
    by blast
  from stringify_parses(1) [OF assms, of "[]" v] obtain v' where
    "parse_value P (c # cs) = Some (v', [])"
    unfolding s by auto
  then show ?thesis
    using c by (simp add: JSON_parse_def s skip_ws_start value_start_def skip_ws_def
        del: parse_value.simps)
qed

lemma digit_char_is_digit: "d < 10 \<Longrightarrow> is_digit (digit_char d)"
  by (simp add: is_digit_def digit_char_def word_le_nat_alt unat_of_nat16 del: of_nat_add)

lemma digit_char_zero: "d < 10 \<Longrightarrow> digit_char d = 0x30 \<longleftrightarrow> d = 0"
proof -
  assume "d < 10"
  then have "unat (digit_char d) = 48 + d"
    by (simp add: digit_char_def unat_of_nat16 del: of_nat_add)
  then show ?thesis
    by (auto simp: word_unat_eq_iff)
qed

lemma decimal_digits:
  "decimal m \<noteq> [] \<and> list_all is_digit (decimal m) \<and> (hd (decimal m) = 0x30 \<longrightarrow> m = 0)"
proof (induction m rule: decimal.induct)
  case (1 n)
  show ?case
  proof (cases "n < 10")
    case True
    then show ?thesis
      by (simp add: decimal.simps [of n] digit_char_is_digit digit_char_zero)
  next
    case False
    then have "n div 10 \<noteq> 0" and "n mod 10 < 10"
      by simp_all
    with 1 [OF False] False show ?thesis
      by (simp add: decimal.simps [of n] digit_char_is_digit)
  qed
qed

lemma scan_number_decimal: "scan_number (decimal m) = Some (decimal m, [])"
proof -
  obtain c cs where d: "decimal m = c # cs"
    using decimal_digits [of m] by (cases "decimal m") auto
  have all: "is_digit c" "list_all is_digit cs" and z: "c = 0x30 \<longrightarrow> m = 0"
    using decimal_digits [of m] d by simp_all
  have n: "c \<noteq> 0x2D"
    using all(1) by (auto simp: is_digit_def)
  have "scan_int (c # cs) = Some (c # cs, [])"
  proof (cases "c = 0x30")
    case True
    with z have "decimal m = [digit_char 0]"
      by (simp add: decimal.simps [of 0])
    with d True show ?thesis
      by (simp add: scan_int_def)
  next
    case False
    have "takeWhile is_digit cs = cs" and "dropWhile is_digit cs = []"
      using all(2) by (simp_all add: list_all_iff)
    with False all(1) show ?thesis
      by (simp add: scan_int_def)
  qed
  then show ?thesis
    using n by (simp add: scan_number_def d scan_frac_def scan_exp_def)
qed

lemma scan_number_minus_decimal:
  "scan_number (0x2D # decimal m) = Some (0x2D # decimal m, [])"
proof -
  from scan_number_decimal [of m] obtain c cs where d: "decimal m = c # cs"
    by (cases "decimal m") (auto simp: scan_number_def scan_int_def)
  have all: "is_digit c"
    using decimal_digits [of m] d by simp
  then have n: "c \<noteq> 0x2D"
    by (auto simp: is_digit_def)
  show ?thesis
    using scan_number_decimal [of m] n
    by (auto simp: scan_number_def d split: option.splits)
qed

lemma sample_platform_ok: "number_literals_ok sample_platform"
  by (simp add: number_literals_ok_def sample_platform_def integer_to_string_def
      scan_number_decimal scan_number_minus_decimal)

lemma respond_shape: "respond P st v = Inr r \<Longrightarrow> json_response P r"
  by (auto simp: respond_eq json_response_def simp del: SerializeJSONProperty.simps
      split: if_splits)

lemma try_block_shape:
  "try_block P fetch req d = Inr r \<Longrightarrow> json_response P r"
  "try_block_netlify P fetch req = Inr r \<Longrightarrow> json_response P r"
  by (auto simp: try_block_def try_block_netlify_def parse_failure_def upstream_error_def
      success_def dest: respond_shape split: sum.splits if_splits)

lemma catch_shape:
  assumes "catch P t = Inr r" and "\<And>r'. t = Inr r' \<Longrightarrow> json_response P r'"
  shows "json_response P r"
  using assms by (cases t) (auto simp: catch_def internal_error_def dest: respond_shape)

lemma response_shape:
  assumes "fst (handler P key fetch event) = Inr r \<or> fst (handler_netlify P key fetch event) = Inr r"
  shows "json_response P r"
proof (cases "queryStringParameters event")
  case None
  with assms show ?thesis
    by (simp add: handler_def handler_netlify_def)
next
  case (Some params)
  show ?thesis
  proof (cases "qval_ToBoolean (map_of params (str ''datasetId''))")
    case False
    with assms show ?thesis
      by (auto simp: handler_rejected [OF Some False] missing_datasetId_def dest: respond_shape)
  next
    case True
    then obtain d where d: "map_of params (str ''datasetId'') = Some d"
      by (cases "map_of params (str ''datasetId'')") auto
    with True have t: "qval_ToBoolean (Some d)"
      by simp
    from assms show ?thesis
      unfolding handler_validated [OF Some d t] handler_netlify_validated [OF Some d t]
      by (auto elim: catch_shape intro: try_block_shape)
  qed
qed

section \<open>The record that \<open>URLSearchParams\<close> is built from\<close>
text \<open>
  The constructor reads the object as a record: every name and value is converted to a
  scalar value string, and a name that is already in the record has its value replaced
  where it stands. The record therefore holds each converted name once, at the place of
  its first occurrence and with the value of its last.
\<close>

lemma code_points_plain:
  "\<not> is_surrogate c \<Longrightarrow> code_points (c # s) = unat c # code_points s"
  by (cases s) (simp_all add: is_surrogate_def)

lemma replacement_plain: "\<not> is_surrogate 0xFFFD" and "unat (0xFFFD :: 16 word) = 0xFFFD"
  by (simp_all add: is_surrogate_def is_high_surrogate_def is_low_surrogate_def)

lemma code_points_ToUSVString: "code_points (ToUSVString s) = code_points s"
proof (induction s rule: ToUSVString.induct)
  case 1
  show ?case by simp
next
  case (2 c)
  show ?case by (simp add: replacement_plain)
next
  case (3 c d cs)
  show ?case
  proof (cases "is_high_surrogate c \<and> is_low_surrogate d")
    case True
    with 3(1) show ?thesis by simp
  next
    case False
    have "code_points ((if is_surrogate c then 0xFFFD else c) # ToUSVString (d # cs))
        = (if is_surrogate c then 0xFFFD else unat c) # code_points (ToUSVString (d # cs))"
      by (simp add: code_points_plain replacement_plain)
    with False 3(2) show ?thesis by auto
  qed
qed

lemma form_urlencode_ToUSVString: "form_urlencode (ToUSVString s) = form_urlencode s"
  by (simp add: form_urlencode_def code_points_ToUSVString)

lemma record_set_fresh: "k \<notin> fst ` set r \<Longrightarrow> record_set k v r = r @ [(k, v)]"
  by (induction r) auto

lemma record_set_present: "k \<in> fst ` set r \<Longrightarrow> map fst (record_set k v r) = map fst r"
proof (induction r)
  case Nil
  then show ?case by simp
next
  case (Cons x r)
  show ?case
  proof (cases "fst x = k")
    case True
    then show ?thesis by (cases x) simp
  next
    case False
    with Cons.prems have "k \<in> fst ` set r"
      by auto
    with Cons.IH False show ?thesis by (cases x) simp
  qed
qed

lemma record_set_keys:
  "map fst (record_set k v r) = (if k \<in> fst ` set r then map fst r else map fst r @ [k])"
  by (simp add: record_set_fresh record_set_present)

lemma record_set_names: "fst ` set (record_set k v r) = insert k (fst ` set r)"
proof -
  have "set (map fst (record_set k v r)) = insert k (set (map fst r))"
    unfolding record_set_keys by auto
  then show ?thesis by simp
qed

lemma map_of_record_set: "map_of (record_set k v r) = (map_of r)(k \<mapsto> v)"
  by (induction r) auto

lemma foldl_record_set_distinct:
  "distinct (map fst acc) \<Longrightarrow>
     distinct (map fst (foldl (\<lambda>r p. record_set (g p) (h p) r) acc xs))"
proof (induction xs arbitrary: acc)
  case Nil
  then show ?case by simp
next
  case (Cons x xs)
  have "distinct (map fst (record_set (g x) (h x) acc))"
    using Cons.prems unfolding record_set_keys by auto
  from Cons.IH [OF this] show ?case by simp
qed

lemma foldl_record_set_keys:
  "fst ` set (foldl (\<lambda>r p. record_set (g p) (h p) r) acc xs) = fst ` set acc \<union> g ` set xs"
proof (induction xs arbitrary: acc)
  case Nil
  show ?case by simp
next
  case (Cons x xs)
  have "fst ` set (record_set (g x) (h x) acc) = insert (g x) (fst ` set acc)"
    by (rule record_set_names)
  with Cons.IH [of "record_set (g x) (h x) acc"] show ?case
    by auto
qed

lemma foldl_record_set_fresh:
  "distinct (map g xs) \<Longrightarrow> g ` set xs \<inter> fst ` set acc = {} \<Longrightarrow>
     foldl (\<lambda>r p. record_set (g p) (h p) r) acc xs = acc @ map (\<lambda>p. (g p, h p)) xs"
proof (induction xs arbitrary: acc)
  case Nil
  show ?case by simp
next
  case (Cons x xs)
  from Cons.prems have f: "g x \<notin> fst ` set acc"
    by auto
  have "g ` set xs \<inter> fst ` set (acc @ [(g x, h x)]) = {}"
    using Cons.prems by auto
  with Cons.IH [of "acc @ [(g x, h x)]"] Cons.prems show ?case
    by (simp add: record_set_fresh [OF f])
qed

lemma map_of_foldl_record_set:
  "map_of (foldl (\<lambda>r p. record_set (g p) (h p) r) acc xs)
     = map_of acc ++ map_of (rev (map (\<lambda>p. (g p, h p)) xs))"
proof (induction xs arbitrary: acc)
  case Nil
  show ?case by simp
next
  case (Cons x xs)
  have "map_of (record_set (g x) (h x) acc) ++ map_of (rev (map (\<lambda>p. (g p, h p)) xs))
      = map_of acc ++ (map_of [(g x, h x)] ++ map_of (rev (map (\<lambda>p. (g p, h p)) xs)))"
    by (simp add: map_of_record_set map_add_upd_left fun_eq_iff map_add_def split: option.splits)
  with Cons.IH [of "record_set (g x) (h x) acc"] show ?case
    by (simp add: map_of_append)
qed

lemma URLSearchParams_distinct: "distinct (map fst (URLSearchParams obj))"
  unfolding URLSearchParams_def by (rule foldl_record_set_distinct) simp

lemma URLSearchParams_names:
  "fst ` set (URLSearchParams obj) = (\<lambda>p. ToUSVString (fst p)) ` set obj"
  unfolding URLSearchParams_def by (simp add: foldl_record_set_keys)

lemma URLSearchParams_lookup:
  "map_of (URLSearchParams obj)
     = map_of (rev (map (\<lambda>p. (ToUSVString (fst p), ToUSVString (qval_ToString (snd p)))) obj))"
  unfolding URLSearchParams_def by (simp add: map_of_foldl_record_set)

lemma URLSearchParams_members:
  assumes "p \<in> set (URLSearchParams obj)"
  shows "\<exists>q \<in> set obj. p = (ToUSVString (fst q), ToUSVString (qval_ToString (snd q)))"
proof -
  have "map_of (URLSearchParams obj) (fst p) = Some (snd p)"
    using assms URLSearchParams_distinct [of obj] by simp
  then have "(fst p, snd p)
      \<in> set (rev (map (\<lambda>p. (ToUSVString (fst p), ToUSVString (qval_ToString (snd p)))) obj))"
    unfolding URLSearchParams_lookup by (rule map_of_SomeD)
  then show ?thesis by auto
qed

lemma URLSearchParams_fresh:
  "distinct (map (\<lambda>p. ToUSVString (fst p)) obj) \<Longrightarrow>
     URLSearchParams obj
       = map (\<lambda>p. (ToUSVString (fst p), ToUSVString (qval_ToString (snd p)))) obj"
  unfolding URLSearchParams_def
  using foldl_record_set_fresh [of "\<lambda>p. ToUSVString (fst p)" obj "[]"
      "\<lambda>p. ToUSVString (qval_ToString (snd p))"]
  by simp

lemma URLSearchParams_toString_fresh:
  assumes "distinct (map (\<lambda>p. ToUSVString (fst p)) obj)"
  shows "URLSearchParams_toString (URLSearchParams obj)
    = join (str ''&'')
        (map (\<lambda>p. form_urlencode (fst p) @ str ''='' @ form_urlencode (qval_ToString (snd p))) obj)"
  by (simp add: URLSearchParams_fresh [OF assms] URLSearchParams_toString_def serialize_pair_def
      form_urlencode_ToUSVString comp_def str_def)

lemma remdups_snoc: "remdups (ys @ [x]) = filter (\<lambda>y. y \<noteq> x) (remdups ys) @ [x]"
  by (induction ys) auto

lemma first_occurrences_Cons:
  "rev (remdups (rev (x # xs))) = x # filter (\<lambda>y. y \<noteq> x) (rev (remdups (rev xs)))"
  by (simp add: remdups_snoc rev_filter)

lemma foldl_record_set_order:
  "map fst (foldl (\<lambda>r p. record_set (g p) (h p) r) acc xs)
     = map fst acc @ filter (\<lambda>k. k \<notin> fst ` set acc) (rev (remdups (rev (map g xs))))"
proof (induction xs arbitrary: acc)
  case Nil
  show ?case by simp
next
  case (Cons x xs)
  let ?fo = "rev (remdups (rev (map g xs)))"
  have f: "rev (remdups (rev (map g (x # xs)))) = g x # filter (\<lambda>y. y \<noteq> g x) ?fo"
    using first_occurrences_Cons [of "g x" "map g xs"] by simp
  have i: "map fst (foldl (\<lambda>r p. record_set (g p) (h p) r) acc (x # xs))
      = map fst (record_set (g x) (h x) acc)
        @ filter (\<lambda>k. k \<notin> fst ` set (record_set (g x) (h x) acc)) ?fo"
    using Cons.IH [of "record_set (g x) (h x) acc"] by simp
  show ?case
  proof (cases "g x \<in> fst ` set acc")
    case True
    then have "filter (\<lambda>k. k \<notin> fst ` set acc) (filter (\<lambda>y. y \<noteq> g x) ?fo)
        = filter (\<lambda>k. k \<notin> fst ` set acc) ?fo"
      by (auto intro: filter_cong)
    with True show ?thesis
      unfolding i f record_set_names by (simp add: record_set_present insert_absorb)
  next
    case False
    have "filter (\<lambda>k. k \<notin> insert (g x) (fst ` set acc)) ?fo
        = filter (\<lambda>k. k \<notin> fst ` set acc) (filter (\<lambda>y. y \<noteq> g x) ?fo)"
      by (auto intro: filter_cong)
    with False show ?thesis
      unfolding i f record_set_names by (simp add: record_set_fresh)
  qed
qed

lemma URLSearchParams_order:
  "map fst (URLSearchParams obj) = rev (remdups (rev (map (\<lambda>p. ToUSVString (fst p)) obj)))"
  unfolding URLSearchParams_def
  using foldl_record_set_order [of "\<lambda>p. ToUSVString (fst p)"
      "\<lambda>p. ToUSVString (qval_ToString (snd p))" "[]" obj]
  by simp

section \<open>Validation\<close>
text \<open>
  C3. When \<open>datasetId\<close> is absent from the query parameters or is the empty string, both
  handlers return status 400 with the body
  \<open>{"error":"Missing datasetId in query parameters."}\<close>, whose \<open>error\<close> field is that
  message, and make no outbound request.
\<close>

theorem missing_datasetId_is_400:
  assumes "queryStringParameters event = Some params"
    and "map_of params (str ''datasetId'') = None
       \<or> map_of params (str ''datasetId'') = Some (QStr [])"
  shows "handler P key fetch event =
      (Inr \<lparr> statusCode = 400, headers = json_headers,
             body = str ''{\"error\":\"Missing datasetId in query parameters.\"}'' \<rparr>, [])
    \<and> handler_netlify P key fetch event =
      (Inr \<lparr> statusCode = 400, headers = json_headers,
             body = str ''{\"error\":\"Missing datasetId in query parameters.\"}'' \<rparr>, [])
    \<and> JSON_parse P (str ''{\"error\":\"Missing datasetId in query parameters.\"}'') =
      Inr (JObj [(str ''error'', JStr (str ''Missing datasetId in query parameters.''))])"
proof -
  have "\<not> qval_ToBoolean (map_of params (str ''datasetId''))"
    using assms(2) by auto
  from handler_rejected [OF assms(1) this, of P key fetch]
  have "handler P key fetch event = (missing_datasetId P, [])"
    and "handler_netlify P key fetch event = (missing_datasetId P, [])"
    by simp_all
  moreover have "missing_datasetId P = Inr \<lparr> statusCode = 400, headers = json_headers,
             body = str ''{\"error\":\"Missing datasetId in query parameters.\"}'' \<rparr>"
    by (simp add: missing_datasetId_eq quote_defs str_def)
  ultimately show ?thesis
    using missing_body_parse [of P] by simp
qed

theorem missing_datasetId_is_400_witness:
  "handler sample_platform (Some (str ''secret'')) (\<lambda>r. Inl (JSError []))
      \<lparr> queryStringParameters = Some [(str ''locationName'', QStr (str ''x'')), (str ''datasetId'', QStr [])] \<rparr> =
      (Inr \<lparr> statusCode = 400, headers = json_headers,
             body = str ''{\"error\":\"Missing datasetId in query parameters.\"}'' \<rparr>, [])
   \<and> handler sample_platform (Some (str ''secret'')) (\<lambda>r. Inl (JSError []))
      \<lparr> queryStringParameters = Some [] \<rparr> =
      (Inr \<lparr> statusCode = 400, headers = json_headers,
             body = str ''{\"error\":\"Missing datasetId in query parameters.\"}'' \<rparr>, [])"
proof -
  have a: "map_of [(str ''locationName'', QStr (str ''x'')), (str ''datasetId'', QStr [])] (str ''datasetId'') = None
     \<or> map_of [(str ''locationName'', QStr (str ''x'')), (str ''datasetId'', QStr [])] (str ''datasetId'') = Some (QStr [])"
    by (simp add: str_def)
  have b: "map_of ([] :: (jsstring \<times> qval) list) (str ''datasetId'') = None
     \<or> map_of ([] :: (jsstring \<times> qval) list) (str ''datasetId'') = Some (QStr [])"
    by simp
  show ?thesis
    using missing_datasetId_is_400 [OF _ a, of "\<lparr> queryStringParameters = Some [(str ''locationName'', QStr (str ''x'')), (str ''datasetId'', QStr [])] \<rparr>"
        sample_platform "Some (str ''secret'')" "\<lambda>r. Inl (JSError [])"]
      missing_datasetId_is_400 [OF _ b, of "\<lparr> queryStringParameters = Some [] \<rparr>"
        sample_platform "Some (str ''secret'')" "\<lambda>r. Inl (JSError [])"]
    by simp
qed

text \<open>
  C2. The claim is that every event, also one without \<open>queryStringParameters\<close>, is
  answered by a response. Destructuring \<open>null\<close> or \<open>undefined\<close> throws before the \<open>try\<close>
  block is entered: the promise rejects and no response is returned.
\<close>

theorem null_query_parameters_rejects:
  "handler P key fetch \<lparr> queryStringParameters = None \<rparr> =
      (Inl (JSError (TypeError_message P DestructureNullish)), [])
   \<and> handler_netlify P key fetch \<lparr> queryStringParameters = None \<rparr> =
      (Inl (JSError (TypeError_message P DestructureNullish)), [])"
  by (simp add: handler_def handler_netlify_def)

section \<open>The outbound request\<close>
text \<open>
  C4. With a non-empty string \<open>datasetId\<close>, both handlers make exactly one outbound
  request. Its URL is the fixed base path, a slash, the \<open>datasetId\<close> as it came, a question
  mark, and the pairs of the \<open>URLSearchParams\<close> built from the other parameters, as
  \<open>name=value\<close> joined by \<open>&\<close>, names and values encoded by the form-urlencoded
  serializer. Its only header is \<open>Authorization: CWA\<close> followed by the key. Where the
  names of the other parameters stay distinct when converted to scalar value strings,
  the query string is one encoded \<open>name=value\<close> per parameter, in the order of the object.
  The witness is the request for \<open>F-C0032-001\<close> with \<open>locationName\<close> set to the two
  characters U+81FA U+5317.
\<close>

theorem upstream_request:
  assumes "queryStringParameters event = Some params"
    and "map_of params (str ''datasetId'') = Some (QStr s)"
    and "s \<noteq> []"
    and "otherParams = filter (\<lambda>p. fst p \<noteq> str ''datasetId'') params"
  shows "snd (handler P key fetch event) =
      [\<lparr> url = str ''https://opendata.cwa.gov.tw/api/v1/rest/datastore/'' @ s @ str ''?''
             @ join (str ''&'')
                 (map (\<lambda>p. form_urlencode (fst p) @ str ''='' @ form_urlencode (snd p))
                    (URLSearchParams otherParams)),
          request_headers = [(str ''Authorization'', str ''CWA '' @ key_ToString key)] \<rparr>]
    \<and> snd (handler_netlify P key fetch event) = snd (handler P key fetch event)
    \<and> (distinct (map (\<lambda>p. ToUSVString (fst p)) otherParams) \<longrightarrow>
         join (str ''&'')
           (map (\<lambda>p. form_urlencode (fst p) @ str ''='' @ form_urlencode (snd p))
              (URLSearchParams otherParams))
           = join (str ''&'')
               (map (\<lambda>p. form_urlencode (fst p) @ str ''='' @ form_urlencode (qval_ToString (snd p)))
                  otherParams))"
proof -
  have t: "qval_ToBoolean (Some (QStr s))"
    using assms(3) by simp
  have b: "cwaApiBaseUrl @ str ''/'' = str ''https://opendata.cwa.gov.tw/api/v1/rest/datastore/''"
    by (simp add: cwaApiBaseUrl_def str_def)
  have a: "cwaApiBaseUrl @ str ''/'' @ s @ rest
      = str ''https://opendata.cwa.gov.tw/api/v1/rest/datastore/'' @ s @ rest" for rest
    using b by (metis append.assoc)
  have q: "URLSearchParams_toString ps
      = join (str ''&'') (map (\<lambda>p. form_urlencode (fst p) @ str ''='' @ form_urlencode (snd p)) ps)"
    for ps
    by (simp add: URLSearchParams_toString_def serialize_pair_def [abs_def] str_def)
  show ?thesis
    unfolding handler_validated [OF assms(1,2) t] handler_netlify_validated [OF assms(1,2) t]
    using URLSearchParams_toString_fresh [of otherParams] a
    by (simp add: cwa_request_def cwaUrl_def assms(4) q)
qed

theorem upstream_request_witness:
  "snd (handler sample_platform (Some (str ''secret'')) (\<lambda>r. Inl (JSError []))
      \<lparr> queryStringParameters = Some [(str ''datasetId'', QStr (str ''F-C0032-001'')),
                                      (str ''locationName'', QStr [0x81FA, 0x5317])] \<rparr>) =
     [\<lparr> url = str ''https://opendata.cwa.gov.tw/api/v1/rest/datastore/F-C0032-001?locationName=%E8%87%BA%E5%8C%97'',
         request_headers = [(str ''Authorization'', str ''CWA secret'')] \<rparr>]"
proof -
  have d: "map_of [(str ''datasetId'', QStr (str ''F-C0032-001'')),
                   (str ''locationName'', QStr [0x81FA, 0x5317])] (str ''datasetId'')
      = Some (QStr (str ''F-C0032-001''))"
    by simp
  have n: "str ''F-C0032-001'' \<noteq> []"
    by (simp add: str_def)
  show ?thesis
    using upstream_request [OF _ d n refl, of
        "\<lparr> queryStringParameters = Some [(str ''datasetId'', QStr (str ''F-C0032-001'')),
                                      (str ''locationName'', QStr [0x81FA, 0x5317])] \<rparr>"
        sample_platform "Some (str ''secret'')" "\<lambda>r. Inl (JSError [])"]
    by (simp add: url_defs str_def)
qed

text \<open>
  C5, as amended. The upstream query string is the serialization of a list that holds one
  \<open>name=value\<close> pair for each distinct name among the remaining parameters, names
  compared after their conversion to scalar value strings. The names stand in the order
  of their first occurrence, and the value of a name is that of the last parameter with
  that name. Several values under one key (an array) are joined with commas into the one
  value of that pair before it is encoded. Where the converted names are distinct, every
  parameter gives exactly one pair, in the order of the object. The witness evaluates
  \<open>tag\<close> with the values \<open>a\<close> and \<open>b\<close>, and two names that are lone surrogates, which both
  become U+FFFD.
\<close>

theorem one_pair_per_name:
  assumes "queryStringParameters event = Some params"
    and "map_of params (str ''datasetId'') = Some d"
    and "qval_ToBoolean (Some d)"
    and "otherParams = filter (\<lambda>p. fst p \<noteq> str ''datasetId'') params"
    and "pairs = URLSearchParams otherParams"
    and "convert = (\<lambda>q. (ToUSVString (fst q),
            ToUSVString (case snd q of QStr s \<Rightarrow> s | QArr vs \<Rightarrow> join (str '','') vs)))"
  shows "map url (snd (handler P key fetch event)) =
      [cwaApiBaseUrl @ str ''/'' @ qval_ToString d @ str ''?''
         @ join (str ''&'') (map (\<lambda>p. form_urlencode (fst p) @ str ''='' @ form_urlencode (snd p)) pairs)]
    \<and> map url (snd (handler_netlify P key fetch event)) = map url (snd (handler P key fetch event))
    \<and> distinct (map fst pairs)
    \<and> map fst pairs = rev (remdups (rev (map (\<lambda>q. ToUSVString (fst q)) otherParams)))
    \<and> map_of pairs = map_of (rev (map convert otherParams))
    \<and> (distinct (map (\<lambda>q. ToUSVString (fst q)) otherParams) \<longrightarrow> pairs = map convert otherParams)"
proof -
  have c: "(case v of QStr s \<Rightarrow> s | QArr vs \<Rightarrow> join (str '','') vs) = qval_ToString v" for v
    by (cases v) (simp_all add: str_def)
  have u: "map url (snd (handler P key fetch event)) =
      [cwaApiBaseUrl @ str ''/'' @ qval_ToString d @ str ''?''
         @ join (str ''&'') (map (\<lambda>p. form_urlencode (fst p) @ str ''='' @ form_urlencode (snd p)) pairs)]"
    and n: "map url (snd (handler_netlify P key fetch event)) = map url (snd (handler P key fetch event))"
    unfolding handler_validated [OF assms(1-3)] handler_netlify_validated [OF assms(1-3)]
    by (simp_all add: assms(4,5) cwa_request_def cwaUrl_def URLSearchParams_toString_def
        serialize_pair_def [abs_def] split_def str_def)
  show ?thesis
    using u n URLSearchParams_distinct [of otherParams] URLSearchParams_order [of otherParams]
      URLSearchParams_lookup [of otherParams] URLSearchParams_fresh [of otherParams]
    by (simp add: assms(5,6) c)
qed

theorem one_pair_per_name_witness:
  "map url (snd (handler sample_platform (Some (str ''secret'')) (\<lambda>r. Inl (JSError []))
      \<lparr> queryStringParameters = Some [(str ''datasetId'', QStr (str ''F-C0032-001'')),
                                      (str ''tag'', QArr [str ''a'', str ''b''])] \<rparr>)) =
     [str ''https://opendata.cwa.gov.tw/api/v1/rest/datastore/F-C0032-001?tag=a%2Cb'']
   \<and> map url (snd (handler sample_platform (Some (str ''secret'')) (\<lambda>r. Inl (JSError []))
      \<lparr> queryStringParameters = Some [(str ''datasetId'', QStr (str ''F-C0032-001'')),
                                      ([0xD800], QStr (str ''a'')),
                                      ([0xDC00], QStr (str ''b''))] \<rparr>)) =
     [str ''https://opendata.cwa.gov.tw/api/v1/rest/datastore/F-C0032-001?%EF%BF%BD=b'']"
proof -
  have d: "map_of [(str ''datasetId'', QStr (str ''F-C0032-001'')),
                   (str ''tag'', QArr [str ''a'', str ''b''])] (str ''datasetId'')
      = Some (QStr (str ''F-C0032-001''))"
    by simp
  have e: "map_of [(str ''datasetId'', QStr (str ''F-C0032-001'')),
                   ([0xD800], QStr (str ''a'')), ([0xDC00], QStr (str ''b''))] (str ''datasetId'')
      = Some (QStr (str ''F-C0032-001''))"
    by simp
  have t: "qval_ToBoolean (Some (QStr (str ''F-C0032-001'')))"
    by (simp add: str_def)
  have 1: "map url (snd (handler sample_platform (Some (str ''secret'')) (\<lambda>r. Inl (JSError []))
      \<lparr> queryStringParameters = Some [(str ''datasetId'', QStr (str ''F-C0032-001'')),
                                      (str ''tag'', QArr [str ''a'', str ''b''])] \<rparr>)) =
     [str ''https://opendata.cwa.gov.tw/api/v1/rest/datastore/F-C0032-001?tag=a%2Cb'']"
    using one_pair_per_name [OF _ d t refl refl refl, of
        "\<lparr> queryStringParameters = Some [(str ''datasetId'', QStr (str ''F-C0032-001'')),
                                      (str ''tag'', QArr [str ''a'', str ''b''])] \<rparr>"
        sample_platform "Some (str ''secret'')" "\<lambda>r. Inl (JSError [])"]
    by (simp add: url_defs str_def)
  have 2: "map url (snd (handler sample_platform (Some (str ''secret'')) (\<lambda>r. Inl (JSError []))
      \<lparr> queryStringParameters = Some [(str ''datasetId'', QStr (str ''F-C0032-001'')),
                                      ([0xD800], QStr (str ''a'')),
                                      ([0xDC00], QStr (str ''b''))] \<rparr>)) =
     [str ''https://opendata.cwa.gov.tw/api/v1/rest/datastore/F-C0032-001?%EF%BF%BD=b'']"
    using one_pair_per_name [OF _ e t refl refl refl, of
        "\<lparr> queryStringParameters = Some [(str ''datasetId'', QStr (str ''F-C0032-001'')),
                                      ([0xD800], QStr (str ''a'')),
                                      ([0xDC00], QStr (str ''b''))] \<rparr>"
        sample_platform "Some (str ''secret'')" "\<lambda>r. Inl (JSError [])"]
    by (simp add: url_defs str_def)
  from 1 2 show ?thesis
    by (rule conjI)
qed

text \<open>
  C5, as stated, fails: for \<open>tag\<close> carrying the two values \<open>a\<close> and \<open>b\<close> the query string
  is not \<open>tag=a&tag=b\<close> (it is \<open>tag=a%2Cb\<close>, see the witness above).
\<close>

theorem multiple_values_counterexample:
  "map url (snd (handler sample_platform (Some (str ''secret'')) (\<lambda>r. Inl (JSError []))
      \<lparr> queryStringParameters = Some [(str ''datasetId'', QStr (str ''F-C0032-001'')),
                                      (str ''tag'', QArr [str ''a'', str ''b''])] \<rparr>)) \<noteq>
     [str ''https://opendata.cwa.gov.tw/api/v1/rest/datastore/F-C0032-001?tag=a&tag=b'']
   \<and> map url (snd (handler_netlify sample_platform (Some (str ''secret'')) (\<lambda>r. Inl (JSError []))
      \<lparr> queryStringParameters = Some [(str ''datasetId'', QStr (str ''F-C0032-001'')),
                                      (str ''tag'', QArr [str ''a'', str ''b''])] \<rparr>)) \<noteq>
     [str ''https://opendata.cwa.gov.tw/api/v1/rest/datastore/F-C0032-001?tag=a&tag=b'']"
  by (simp add: handler_def handler_netlify_def Let_def url_defs str_def)

section \<open>Replies of the upstream API\<close>
text \<open>
  C7, as amended. When the upstream status is between 200 and 299 and the body parses as
  a JSON value that \<open>JSON.stringify\<close> can serialize (its nesting is within the depth the
  serializer can descend), both handlers return status 200, the two fixed headers, and as
  body the serialization of the parsed value. A parsed value nested deeper makes
  \<open>JSON.stringify\<close> throw a RangeError inside the \<open>try\<close>, and both handlers return status
  500 with the body \<open>{"error":"Serverless Function Internal Error: <message>"}\<close>. The
  witness is the reply \<open>{"foo":"bar"}\<close> with status 200 and with status 201, and a reply
  of four nested objects on a platform that descends three levels.
\<close>

theorem success_is_200:
  assumes "queryStringParameters event = Some params"
    and "map_of params (str ''datasetId'') = Some d"
    and "qval_ToBoolean (Some d)"
    and "fetch (cwa_request key d (filter (\<lambda>p. fst p \<noteq> str ''datasetId'') params))
           = Inr \<lparr> status = st, body_text = Inr raw \<rparr>"
    and "200 \<le> st" and "st \<le> 299"
    and "JSON_parse P raw = Inr data"
  shows "(depth data \<le> stringify_depth_limit P \<longrightarrow>
        fst (handler P key fetch event) =
          Inr \<lparr> statusCode = 200, headers = json_headers, body = SerializeJSONProperty P data \<rparr>
        \<and> fst (handler_netlify P key fetch event) =
          Inr \<lparr> statusCode = 200, headers = json_headers, body = SerializeJSONProperty P data \<rparr>)
    \<and> (stringify_depth_limit P < depth data \<longrightarrow>
        fst (handler P key fetch event) =
          Inr \<lparr> statusCode = 500, headers = json_headers,
                body = SerializeJSONProperty P (JObj [(str ''error'',
                  JStr (str ''Serverless Function Internal Error: '' @ RangeError_message P))]) \<rparr>
        \<and> fst (handler_netlify P key fetch event) =
          Inr \<lparr> statusCode = 500, headers = json_headers,
                body = SerializeJSONProperty P (JObj [(str ''error'',
                  JStr (str ''Serverless Function Internal Error: '' @ RangeError_message P))]) \<rparr>)"
  unfolding handler_validated [OF assms(1-3)] handler_netlify_validated [OF assms(1-3)]
  using assms(4-7)
  by (simp add: try_block_def try_block_netlify_def catch_def ok_def success_eq internal_error_eq
      del: SerializeJSONProperty.simps)

theorem success_is_200_witness:
  "fst (handler sample_platform (Some (str ''secret''))
      (\<lambda>r. Inr \<lparr> status = 200, body_text = Inr (str ''{\"foo\":\"bar\"}'') \<rparr>)
      \<lparr> queryStringParameters = Some [(str ''datasetId'', QStr (str ''F-C0032-001''))] \<rparr>) =
      Inr \<lparr> statusCode = 200, headers = json_headers, body = str ''{\"foo\":\"bar\"}'' \<rparr>
   \<and> fst (handler sample_platform (Some (str ''secret''))
      (\<lambda>r. Inr \<lparr> status = 201, body_text = Inr (str ''{\"foo\":\"bar\"}'') \<rparr>)
      \<lparr> queryStringParameters = Some [(str ''datasetId'', QStr (str ''F-C0032-001''))] \<rparr>) =
      Inr \<lparr> statusCode = 200, headers = json_headers, body = str ''{\"foo\":\"bar\"}'' \<rparr>
   \<and> fst (handler sample_platform (Some (str ''secret''))
      (\<lambda>r. Inr \<lparr> status = 201, body_text = Inr (str ''{\"a\":{\"b\":{\"c\":{}}}}'') \<rparr>)
      \<lparr> queryStringParameters = Some [(str ''datasetId'', QStr (str ''F-C0032-001''))] \<rparr>) =
      Inr \<lparr> statusCode = 500, headers = json_headers,
            body = str ''{\"error\":\"Serverless Function Internal Error: Maximum call stack size exceeded\"}'' \<rparr>"
proof -
  have d: "map_of [(str ''datasetId'', QStr (str ''F-C0032-001''))] (str ''datasetId'')
      = Some (QStr (str ''F-C0032-001''))"
    by simp
  have t: "qval_ToBoolean (Some (QStr (str ''F-C0032-001'')))"
    by (simp add: str_def)
  have s: "SerializeJSONProperty sample_platform (JObj [(str ''foo'', JStr (str ''bar''))])
      = str ''{\"foo\":\"bar\"}''"
    by (simp add: quote_defs str_def)
  have e: "SerializeJSONProperty sample_platform (JObj [(str ''error'',
        JStr (str ''Serverless Function Internal Error: '' @ RangeError_message sample_platform))])
      = str ''{\"error\":\"Serverless Function Internal Error: Maximum call stack size exceeded\"}''"
    by (simp add: quote_defs sample_platform_def str_def)
  have l: "stringify_depth_limit sample_platform = 3"
    by (simp add: stringify_depth_limit_def sample_platform_def)
  from success_is_200 [OF _ d t _ _ _ parse_foo_bar, of
        "\<lparr> queryStringParameters = Some [(str ''datasetId'', QStr (str ''F-C0032-001''))] \<rparr>"
        "\<lambda>r. Inr \<lparr> status = 200, body_text = Inr (str ''{\"foo\":\"bar\"}'') \<rparr>"
        "Some (str ''secret'')" 200 sample_platform]
      success_is_200 [OF _ d t _ _ _ parse_foo_bar, of
        "\<lparr> queryStringParameters = Some [(str ''datasetId'', QStr (str ''F-C0032-001''))] \<rparr>"
        "\<lambda>r. Inr \<lparr> status = 201, body_text = Inr (str ''{\"foo\":\"bar\"}'') \<rparr>"
        "Some (str ''secret'')" 201 sample_platform]
      success_is_200 [OF _ d t _ _ _ parse_nested_4, of
        "\<lparr> queryStringParameters = Some [(str ''datasetId'', QStr (str ''F-C0032-001''))] \<rparr>"
        "\<lambda>r. Inr \<lparr> status = 201, body_text = Inr (str ''{\"a\":{\"b\":{\"c\":{}}}}'') \<rparr>"
        "Some (str ''secret'')" 201 sample_platform]
  show ?thesis
    unfolding s [symmetric] e [symmetric] by (simp add: l del: SerializeJSONProperty.simps)
qed

text \<open>
  C7, as stated, fails. On every platform, the reply made of one opening bracket more
  than \<open>JSON.stringify\<close> can descend, and as many closing ones, has status 200 and
  parses as JSON, and the response has status 500, not 200. On the platform that descends
  three levels this is the reply \<open>[[[[]]]]\<close>.
\<close>

theorem deep_reply_counterexample:
  "(\<forall>P :: 'n platform.
      fst (handler P (Some (str ''secret''))
        (\<lambda>r. Inr \<lparr> status = 200, body_text = Inr (nested_text (stringify_depth_limit P)) \<rparr>)
        \<lparr> queryStringParameters = Some [(str ''datasetId'', QStr (str ''F-C0032-001''))] \<rparr>) =
        Inr \<lparr> statusCode = 500, headers = json_headers,
              body = SerializeJSONProperty P (JObj [(str ''error'',
                JStr (str ''Serverless Function Internal Error: '' @ RangeError_message P))]) \<rparr>)
   \<and> (\<forall>P :: 'n platform.
      fst (handler_netlify P (Some (str ''secret''))
        (\<lambda>r. Inr \<lparr> status = 200, body_text = Inr (nested_text (stringify_depth_limit P)) \<rparr>)
        \<lparr> queryStringParameters = Some [(str ''datasetId'', QStr (str ''F-C0032-001''))] \<rparr>) =
        Inr \<lparr> statusCode = 500, headers = json_headers,
              body = SerializeJSONProperty P (JObj [(str ''error'',
                JStr (str ''Serverless Function Internal Error: '' @ RangeError_message P))]) \<rparr>)
   \<and> fst (handler sample_platform (Some (str ''secret''))
      (\<lambda>r. Inr \<lparr> status = 200, body_text = Inr (str ''[[[[]]]]'') \<rparr>)
      \<lparr> queryStringParameters = Some [(str ''datasetId'', QStr (str ''F-C0032-001''))] \<rparr>) =
      Inr \<lparr> statusCode = 500, headers = json_headers,
            body = str ''{\"error\":\"Serverless Function Internal Error: Maximum call stack size exceeded\"}'' \<rparr>"
proof -
  have d: "map_of [(str ''datasetId'', QStr (str ''F-C0032-001''))] (str ''datasetId'')
      = Some (QStr (str ''F-C0032-001''))"
    by simp
  have t: "qval_ToBoolean (Some (QStr (str ''F-C0032-001'')))"
    by (simp add: str_def)
  have q: "queryStringParameters
      \<lparr> queryStringParameters = Some [(str ''datasetId'', QStr (str ''F-C0032-001''))] \<rparr>
      = Some [(str ''datasetId'', QStr (str ''F-C0032-001''))]"
    by simp
  have s: "success P (nested (stringify_depth_limit P)) = Inl (JSError (RangeError_message P))"
    for P :: "'n platform"
    by (simp add: success_eq depth_nested)
  have 1: "fst (handler P (Some (str ''secret''))
        (\<lambda>r. Inr \<lparr> status = 200, body_text = Inr (nested_text (stringify_depth_limit P)) \<rparr>)
        \<lparr> queryStringParameters = Some [(str ''datasetId'', QStr (str ''F-C0032-001''))] \<rparr>) =
        Inr \<lparr> statusCode = 500, headers = json_headers,
              body = SerializeJSONProperty P (JObj [(str ''error'',
                JStr (str ''Serverless Function Internal Error: '' @ RangeError_message P))]) \<rparr>"
    for P :: "'n platform"
    unfolding handler_validated [OF q d t]
    by (simp add: try_block_def ok_def parse_nested s catch_def internal_error_eq
        del: SerializeJSONProperty.simps)
  have 2: "fst (handler_netlify P (Some (str ''secret''))
        (\<lambda>r. Inr \<lparr> status = 200, body_text = Inr (nested_text (stringify_depth_limit P)) \<rparr>)
        \<lparr> queryStringParameters = Some [(str ''datasetId'', QStr (str ''F-C0032-001''))] \<rparr>) =
        Inr \<lparr> statusCode = 500, headers = json_headers,
              body = SerializeJSONProperty P (JObj [(str ''error'',
                JStr (str ''Serverless Function Internal Error: '' @ RangeError_message P))]) \<rparr>"
    for P :: "'n platform"
    unfolding handler_netlify_validated [OF q d t]
    by (simp add: try_block_netlify_def ok_def parse_nested s catch_def internal_error_eq
        del: SerializeJSONProperty.simps)
  have 3: "fst (handler sample_platform (Some (str ''secret''))
      (\<lambda>r. Inr \<lparr> status = 200, body_text = Inr (str ''[[[[]]]]'') \<rparr>)
      \<lparr> queryStringParameters = Some [(str ''datasetId'', QStr (str ''F-C0032-001''))] \<rparr>) =
      Inr \<lparr> statusCode = 500, headers = json_headers,
            body = str ''{\"error\":\"Serverless Function Internal Error: Maximum call stack size exceeded\"}'' \<rparr>"
    by (simp add: handler_defs parse_defs quote_defs str_def)
  from 1 2 3 show ?thesis
    by blast
qed

text \<open>
  C6, as amended. Let the upstream status be outside 200..299 and the body parse as JSON.
  When the parsed body is not \<open>null\<close>, the conversion of its \<open>message\<close> to a string
  succeeds, and the body is nested one level less deep than the serializer can descend,
  both handlers return the upstream status and the body
  \<open>{"error":"CWA API error (<status>): <m>","cwa_response":<parsed body>}\<close>. Here \<open><m>\<close>
  is \<open>Unknown error\<close> when the parsed body has no \<open>message\<close> property or a falsy one (the
  empty string, zero, \<open>false\<close>, \<open>null\<close>), and otherwise the \<open>message\<close> converted to a
  string; a non-empty string is taken as it is. In the other cases both handlers return
  status 500 with the body \<open>{"error":"Serverless Function Internal Error: <message>"}\<close>,
  the message being that of the TypeError for the parsed body \<open>null\<close>, that of the
  exception thrown by the conversion of the \<open>message\<close>, and that of the RangeError for a
  body nested too deep.
\<close>

theorem upstream_error_forwarded:
  assumes "queryStringParameters event = Some params"
    and "map_of params (str ''datasetId'') = Some d"
    and "qval_ToBoolean (Some d)"
    and "fetch (cwa_request key d (filter (\<lambda>p. fst p \<noteq> str ''datasetId'') params))
           = Inr \<lparr> status = st, body_text = Inr raw \<rparr>"
    and "\<not> (200 \<le> st \<and> st \<le> 299)"
    and "JSON_parse P raw = Inr data"
    and "msg = (case data of JObj kvs \<Rightarrow> map_of kvs (str ''message'') | _ \<Rightarrow> None)"
    and "res = (\<lambda>m. Inr \<lparr> statusCode = st, headers = json_headers,
            body = SerializeJSONProperty P (JObj
              [(str ''error'', JStr (str ''CWA API error ('' @ decimal st @ str ''): '' @ m)),
               (str ''cwa_response'', data)]) \<rparr>)"
    and "failure = (\<lambda>m. Inr \<lparr> statusCode = 500, headers = json_headers,
            body = SerializeJSONProperty P (JObj
              [(str ''error'', JStr (str ''Serverless Function Internal Error: '' @ m))]) \<rparr>)"
  shows "(data \<noteq> JNull \<and> Suc (depth data) \<le> stringify_depth_limit P \<longrightarrow>
        (msg = None \<or> (\<exists>v. msg = Some v \<and> \<not> ToBoolean P v) \<longrightarrow>
          fst (handler P key fetch event) = res (str ''Unknown error'')
          \<and> fst (handler_netlify P key fetch event) = res (str ''Unknown error''))
        \<and> (\<forall>v m. msg = Some v \<and> ToBoolean P v \<and> ToString P v = Inr m \<longrightarrow>
          fst (handler P key fetch event) = res m
          \<and> fst (handler_netlify P key fetch event) = res m)
        \<and> (\<forall>s. msg = Some (JStr s) \<and> s \<noteq> [] \<longrightarrow>
          fst (handler P key fetch event) = res s
          \<and> fst (handler_netlify P key fetch event) = res s))
    \<and> (data = JNull \<longrightarrow>
        fst (handler P key fetch event) = failure (TypeError_message P PropertyOfNull)
        \<and> fst (handler_netlify P key fetch event) = failure (TypeError_message P PropertyOfNull))
    \<and> (\<forall>v e. msg = Some v \<and> ToBoolean P v \<and> ToString P v = Inl e \<longrightarrow>
        fst (handler P key fetch event) = failure (message e)
        \<and> fst (handler_netlify P key fetch event) = failure (message e))
    \<and> (data \<noteq> JNull \<and> stringify_depth_limit P < Suc (depth data)
        \<and> \<not> (\<exists>v e. msg = Some v \<and> ToBoolean P v \<and> ToString P v = Inl e) \<longrightarrow>
        fst (handler P key fetch event) = failure (RangeError_message P)
        \<and> fst (handler_netlify P key fetch event) = failure (RangeError_message P))"
proof -
  have g: "Get_message P data = Inr msg" if "data \<noteq> JNull"
    using that assms(7) by (cases data) simp_all
  have u: "message_or_unknown P data = Inr (str ''Unknown error'')"
    if "data \<noteq> JNull" "msg = None \<or> (\<exists>v. msg = Some v \<and> \<not> ToBoolean P v)"
    using that(2) g [OF that(1)] by (auto simp: message_or_unknown_def)
  have m: "message_or_unknown P data = ToString P v"
    if "msg = Some v" "ToBoolean P v" for v
  proof -
    have "data \<noteq> JNull"
      using that(1) assms(7) by auto
    from g [OF this] that show ?thesis
      by (simp add: message_or_unknown_def)
  qed
  have n: "message_or_unknown P data = Inl (JSError (TypeError_message P PropertyOfNull))"
    if "data = JNull"
    using that by (simp add: message_or_unknown_def)
  have h: "fst (handler P key fetch event) = catch P t
      \<and> fst (handler_netlify P key fetch event) = catch P t"
    if "t = (case message_or_unknown P data of Inl e \<Rightarrow> Inl e
             | Inr m \<Rightarrow> upstream_error P st m data)" for t
    unfolding handler_validated [OF assms(1-3)] handler_netlify_validated [OF assms(1-3)]
    using assms(4-6) that
    by (simp add: try_block_def try_block_netlify_def ok_def cong: sum.case_cong)
  have r: "fst (handler P key fetch event) = res m
      \<and> fst (handler_netlify P key fetch event) = res m"
    if "message_or_unknown P data = Inr m" "Suc (depth data) \<le> stringify_depth_limit P" for m
    using h [OF refl] that
    by (simp add: assms(8) catch_def upstream_error_eq del: SerializeJSONProperty.simps)
  have f: "fst (handler P key fetch event) = failure (message e)
      \<and> fst (handler_netlify P key fetch event) = failure (message e)"
    if "message_or_unknown P data = Inl e" for e
    using h [OF refl] that
    by (simp add: assms(9) catch_def internal_error_eq del: SerializeJSONProperty.simps)
  have o: "fst (handler P key fetch event) = failure (RangeError_message P)
      \<and> fst (handler_netlify P key fetch event) = failure (RangeError_message P)"
    if "message_or_unknown P data = Inr m" "stringify_depth_limit P < Suc (depth data)" for m
    using h [OF refl] that
    by (simp add: assms(9) catch_def upstream_error_eq internal_error_eq
        del: SerializeJSONProperty.simps)
  show ?thesis
  proof (intro conjI allI impI)
    assume a: "data \<noteq> JNull \<and> Suc (depth data) \<le> stringify_depth_limit P"
      and b: "msg = None \<or> (\<exists>v. msg = Some v \<and> \<not> ToBoolean P v)"
    from a have a1: "data \<noteq> JNull" and a2: "Suc (depth data) \<le> stringify_depth_limit P"
      by simp_all
    from r [OF u [OF a1 b] a2]
    show "fst (handler P key fetch event) = res (str ''Unknown error'')"
      and "fst (handler_netlify P key fetch event) = res (str ''Unknown error'')"
      by simp_all
  next
    fix v m'
    assume a: "data \<noteq> JNull \<and> Suc (depth data) \<le> stringify_depth_limit P"
      and b: "msg = Some v \<and> ToBoolean P v \<and> ToString P v = Inr m'"
    from a have a2: "Suc (depth data) \<le> stringify_depth_limit P"
      by simp
    from b have b1: "msg = Some v" and b2: "ToBoolean P v" and b3: "ToString P v = Inr m'"
      by simp_all
    have "message_or_unknown P data = Inr m'"
      using m [OF b1 b2] b3 by simp
    from r [OF this a2]
    show "fst (handler P key fetch event) = res m'"
      and "fst (handler_netlify P key fetch event) = res m'"
      by simp_all
  next
    fix s'
    assume a: "data \<noteq> JNull \<and> Suc (depth data) \<le> stringify_depth_limit P"
      and b: "msg = Some (JStr s') \<and> s' \<noteq> []"
    from a have a2: "Suc (depth data) \<le> stringify_depth_limit P"
      by simp
    from b have b1: "msg = Some (JStr s')" and b2: "ToBoolean P (JStr s')"
      by simp_all
    have "message_or_unknown P data = Inr s'"
      using m [OF b1 b2] by simp
    from r [OF this a2]
    show "fst (handler P key fetch event) = res s'"
      and "fst (handler_netlify P key fetch event) = res s'"
      by simp_all
  next
    assume "data = JNull"
    from f [OF n [OF this]]
    show "fst (handler P key fetch event) = failure (TypeError_message P PropertyOfNull)"
      and "fst (handler_netlify P key fetch event) = failure (TypeError_message P PropertyOfNull)"
      by simp_all
  next
    fix v e
    assume b: "msg = Some v \<and> ToBoolean P v \<and> ToString P v = Inl e"
    then have b1: "msg = Some v" and b2: "ToBoolean P v" and b3: "ToString P v = Inl e"
      by simp_all
    have "message_or_unknown P data = Inl e"
      using m [OF b1 b2] b3 by simp
    from f [OF this]
    show "fst (handler P key fetch event) = failure (message e)"
      and "fst (handler_netlify P key fetch event) = failure (message e)"
      by simp_all
  next
    assume a: "data \<noteq> JNull \<and> stringify_depth_limit P < Suc (depth data)
        \<and> \<not> (\<exists>v e. msg = Some v \<and> ToBoolean P v \<and> ToString P v = Inl e)"
    then have a1: "data \<noteq> JNull" and a2: "stringify_depth_limit P < Suc (depth data)"
      and a3: "\<not> (\<exists>v e. msg = Some v \<and> ToBoolean P v \<and> ToString P v = Inl e)"
      by simp_all
    have "\<exists>m. message_or_unknown P data = Inr m"
    proof (cases "msg = None \<or> (\<exists>v. msg = Some v \<and> \<not> ToBoolean P v)")
      case True
      from u [OF a1 this] show ?thesis
        by blast
    next
      case False
      then obtain v where v: "msg = Some v" "ToBoolean P v"
        by auto
      with a3 have "\<forall>e. ToString P v \<noteq> Inl e"
        by blast
      then obtain m' where "ToString P v = Inr m'"
        by (cases "ToString P v") auto
      with m [OF v] show ?thesis
        by simp
    qed
    then obtain m' where "message_or_unknown P data = Inr m'"
      by blast
    from o [OF this a2]
    show "fst (handler P key fetch event) = failure (RangeError_message P)"
      and "fst (handler_netlify P key fetch event) = failure (RangeError_message P)"
      by simp_all
  qed
qed

theorem upstream_error_forwarded_witness:
  "fst (handler sample_platform (Some (str ''secret''))
      (\<lambda>r. Inr \<lparr> status = 404, body_text = Inr (str ''{\"message\":\"not found\"}'') \<rparr>)
      \<lparr> queryStringParameters = Some [(str ''datasetId'', QStr (str ''F-C0032-001''))] \<rparr>) =
      Inr \<lparr> statusCode = 404, headers = json_headers,
            body = str ''{\"error\":\"CWA API error (404): not found\",\"cwa_response\":{\"message\":\"not found\"}}'' \<rparr>
   \<and> fst (handler_netlify sample_platform (Some (str ''secret''))
      (\<lambda>r. Inr \<lparr> status = 404, body_text = Inr (str ''{\"message\":\"not found\"}'') \<rparr>)
      \<lparr> queryStringParameters = Some [(str ''datasetId'', QStr (str ''F-C0032-001''))] \<rparr>) =
      Inr \<lparr> statusCode = 404, headers = json_headers,
            body = str ''{\"error\":\"CWA API error (404): not found\",\"cwa_response\":{\"message\":\"not found\"}}'' \<rparr>
   \<and> fst (handler sample_platform (Some (str ''secret''))
      (\<lambda>r. Inr \<lparr> status = 404, body_text = Inr (str ''{\"message\":{\"toString\":null}}'') \<rparr>)
      \<lparr> queryStringParameters = Some [(str ''datasetId'', QStr (str ''F-C0032-001''))] \<rparr>) =
      Inr \<lparr> statusCode = 500, headers = json_headers,
            body = str ''{\"error\":\"Serverless Function Internal Error: Cannot convert object to primitive value\"}'' \<rparr>
   \<and> fst (handler sample_platform (Some (str ''secret''))
      (\<lambda>r. Inr \<lparr> status = 404, body_text = Inr (str ''[[[]]]'') \<rparr>)
      \<lparr> queryStringParameters = Some [(str ''datasetId'', QStr (str ''F-C0032-001''))] \<rparr>) =
      Inr \<lparr> statusCode = 500, headers = json_headers,
            body = str ''{\"error\":\"Serverless Function Internal Error: Maximum call stack size exceeded\"}'' \<rparr>"
proof -
  have d: "map_of [(str ''datasetId'', QStr (str ''F-C0032-001''))] (str ''datasetId'')
      = Some (QStr (str ''F-C0032-001''))"
    by simp
  have t: "qval_ToBoolean (Some (QStr (str ''F-C0032-001'')))"
    by (simp add: str_def)
  have n: "\<not> (200 \<le> (404::nat) \<and> (404::nat) \<le> 299)"
    by simp
  have l: "stringify_depth_limit sample_platform = 3"
    by (simp add: stringify_depth_limit_def sample_platform_def)
  have s: "SerializeJSONProperty sample_platform (JObj
              [(str ''error'', JStr (str ''CWA API error ('' @ decimal 404 @ str ''): '' @ str ''not found'')),
               (str ''cwa_response'', JObj [(str ''message'', JStr (str ''not found''))])])
      = str ''{\"error\":\"CWA API error (404): not found\",\"cwa_response\":{\"message\":\"not found\"}}''"
    by (simp add: decimal_404 quote_defs str_def)
  have p: "SerializeJSONProperty sample_platform (JObj [(str ''error'',
        JStr (str ''Serverless Function Internal Error: ''
              @ TypeError_message sample_platform ObjectToPrimitive))])
      = str ''{\"error\":\"Serverless Function Internal Error: Cannot convert object to primitive value\"}''"
    by (simp add: quote_defs sample_platform_def str_def)
  have o: "SerializeJSONProperty sample_platform (JObj [(str ''error'',
        JStr (str ''Serverless Function Internal Error: '' @ RangeError_message sample_platform))])
      = str ''{\"error\":\"Serverless Function Internal Error: Maximum call stack size exceeded\"}''"
    by (simp add: quote_defs sample_platform_def str_def)
  have e: "str ''not found'' \<noteq> []"
    by (simp add: str_def)
  have c: "ToString sample_platform (JObj [(str ''toString'', JNull)])
      = Inl (JSError (TypeError_message sample_platform ObjectToPrimitive))"
    by (simp add: str_def)
  from upstream_error_forwarded [OF _ d t _ n parse_not_found refl refl refl, where
      event = "\<lparr> queryStringParameters = Some [(str ''datasetId'', QStr (str ''F-C0032-001''))] \<rparr>"
      and fetch = "\<lambda>r. Inr \<lparr> status = 404, body_text = Inr (str ''{\"message\":\"not found\"}'') \<rparr>"
      and key = "Some (str ''secret'')" and P = sample_platform]
  have 1: "fst (handler sample_platform (Some (str ''secret''))
      (\<lambda>r. Inr \<lparr> status = 404, body_text = Inr (str ''{\"message\":\"not found\"}'') \<rparr>)
      \<lparr> queryStringParameters = Some [(str ''datasetId'', QStr (str ''F-C0032-001''))] \<rparr>) =
      Inr \<lparr> statusCode = 404, headers = json_headers,
            body = SerializeJSONProperty sample_platform (JObj
              [(str ''error'', JStr (str ''CWA API error ('' @ decimal 404 @ str ''): '' @ str ''not found'')),
               (str ''cwa_response'', JObj [(str ''message'', JStr (str ''not found''))])]) \<rparr>
   \<and> fst (handler_netlify sample_platform (Some (str ''secret''))
      (\<lambda>r. Inr \<lparr> status = 404, body_text = Inr (str ''{\"message\":\"not found\"}'') \<rparr>)
      \<lparr> queryStringParameters = Some [(str ''datasetId'', QStr (str ''F-C0032-001''))] \<rparr>) =
      Inr \<lparr> statusCode = 404, headers = json_headers,
            body = SerializeJSONProperty sample_platform (JObj
              [(str ''error'', JStr (str ''CWA API error ('' @ decimal 404 @ str ''): '' @ str ''not found'')),
               (str ''cwa_response'', JObj [(str ''message'', JStr (str ''not found''))])]) \<rparr>"
    using e by (simp add: l del: SerializeJSONProperty.simps)
  from upstream_error_forwarded [OF _ d t _ n parse_toString_null refl refl refl, where
      event = "\<lparr> queryStringParameters = Some [(str ''datasetId'', QStr (str ''F-C0032-001''))] \<rparr>"
      and fetch = "\<lambda>r. Inr \<lparr> status = 404, body_text = Inr (str ''{\"message\":{\"toString\":null}}'') \<rparr>"
      and key = "Some (str ''secret'')" and P = sample_platform]
  have 2: "fst (handler sample_platform (Some (str ''secret''))
      (\<lambda>r. Inr \<lparr> status = 404, body_text = Inr (str ''{\"message\":{\"toString\":null}}'') \<rparr>)
      \<lparr> queryStringParameters = Some [(str ''datasetId'', QStr (str ''F-C0032-001''))] \<rparr>) =
      Inr \<lparr> statusCode = 500, headers = json_headers,
            body = SerializeJSONProperty sample_platform (JObj [(str ''error'',
              JStr (str ''Serverless Function Internal Error: ''
                    @ TypeError_message sample_platform ObjectToPrimitive))]) \<rparr>"
    using c by (simp del: SerializeJSONProperty.simps ToString.simps)
  from upstream_error_forwarded [OF _ d t _ n parse_nested_3 refl refl refl, where
      event = "\<lparr> queryStringParameters = Some [(str ''datasetId'', QStr (str ''F-C0032-001''))] \<rparr>"
      and fetch = "\<lambda>r. Inr \<lparr> status = 404, body_text = Inr (str ''[[[]]]'') \<rparr>"
      and key = "Some (str ''secret'')" and P = sample_platform]
  have 3: "fst (handler sample_platform (Some (str ''secret''))
      (\<lambda>r. Inr \<lparr> status = 404, body_text = Inr (str ''[[[]]]'') \<rparr>)
      \<lparr> queryStringParameters = Some [(str ''datasetId'', QStr (str ''F-C0032-001''))] \<rparr>) =
      Inr \<lparr> statusCode = 500, headers = json_headers,
            body = SerializeJSONProperty sample_platform (JObj [(str ''error'',
              JStr (str ''Serverless Function Internal Error: '' @ RangeError_message sample_platform))]) \<rparr>"
    by (simp add: l del: SerializeJSONProperty.simps)
  from 1 2 3 show ?thesis
    unfolding s p o by simp
qed

text \<open>
  C6, as stated, fails. With status 404 and body \<open>{"message":""}\<close> the \<open>message\<close> is
  present, and the error text ends in \<open>Unknown error\<close>, not in the empty message. With
  status 404 and body \<open>null\<close>, reading \<open>data.message\<close> throws and the response has status
  500, not 404. With status 404 and body \<open>{"message":{"toString":null}}\<close> the conversion
  of the \<open>message\<close> to a string throws, and the response has status 500 as well.
\<close>

theorem upstream_error_counterexample:
  "fst (handler sample_platform (Some (str ''secret''))
      (\<lambda>r. Inr \<lparr> status = 404, body_text = Inr (str ''{\"message\":\"\"}'') \<rparr>)
      \<lparr> queryStringParameters = Some [(str ''datasetId'', QStr (str ''F-C0032-001''))] \<rparr>) =
      Inr \<lparr> statusCode = 404, headers = json_headers,
            body = str ''{\"error\":\"CWA API error (404): Unknown error\",\"cwa_response\":{\"message\":\"\"}}'' \<rparr>
   \<and> str ''{\"error\":\"CWA API error (404): Unknown error\",\"cwa_response\":{\"message\":\"\"}}''
      \<noteq> str ''{\"error\":\"CWA API error (404): \",\"cwa_response\":{\"message\":\"\"}}''
   \<and> fst (handler sample_platform (Some (str ''secret''))
      (\<lambda>r. Inr \<lparr> status = 404, body_text = Inr (str ''null'') \<rparr>)
      \<lparr> queryStringParameters = Some [(str ''datasetId'', QStr (str ''F-C0032-001''))] \<rparr>) =
      Inr \<lparr> statusCode = 500, headers = json_headers,
            body = str ''{\"error\":\"Serverless Function Internal Error: Cannot read properties of null (reading message)\"}'' \<rparr>
   \<and> fst (handler_netlify sample_platform (Some (str ''secret''))
      (\<lambda>r. Inr \<lparr> status = 404, body_text = Inr (str ''{\"message\":{\"toString\":null}}'') \<rparr>)
      \<lparr> queryStringParameters = Some [(str ''datasetId'', QStr (str ''F-C0032-001''))] \<rparr>) =
      Inr \<lparr> statusCode = 500, headers = json_headers,
            body = str ''{\"error\":\"Serverless Function Internal Error: Cannot convert object to primitive value\"}'' \<rparr>"
  by (simp add: handler_defs parse_defs quote_defs decimal_404 str_def)

text \<open>
  C8, as amended. When the body of the reply does not parse as JSON, whatever the status:
  the handler of \<open>src/unnamed/part_000\<close> returns status 500 with the body
  \<open>{error, raw_cwa_response_snippet, datasetId}\<close>, where \<open>error\<close> is a fixed text followed
  by the message of the parse exception and the snippet is the first 200 code units of the
  raw body followed by three dots (the whole raw body and three dots when it has at most
  200 code units); the handler of \<open>src/netlify/functions/cwa-proxy.js\<close> returns status
  500 with the body \<open>{"error":"Serverless Function Internal Error: <message>"}\<close> and no
  snippet.
\<close>

theorem parse_failure_is_500:
  assumes "queryStringParameters event = Some params"
    and "map_of params (str ''datasetId'') = Some d"
    and "qval_ToBoolean (Some d)"
    and "fetch (cwa_request key d (filter (\<lambda>p. fst p \<noteq> str ''datasetId'') params))
           = Inr \<lparr> status = st, body_text = Inr raw \<rparr>"
    and "JSON_parse P raw = Inl jsonParseError"
  shows "fst (handler P key fetch event) =
      Inr \<lparr> statusCode = 500, headers = json_headers,
            body = SerializeJSONProperty P (JObj
              [(str ''error'',
                JStr (str ''Serverless Function Internal Error: Failed to parse CWA API response as JSON. Original error: ''
                      @ message jsonParseError)),
               (str ''raw_cwa_response_snippet'', JStr (take 200 raw @ str ''...'')),
               (str ''datasetId'', json_of_qval d)]) \<rparr>
    \<and> fst (handler_netlify P key fetch event) =
      Inr \<lparr> statusCode = 500, headers = json_headers,
            body = SerializeJSONProperty P (JObj
              [(str ''error'',
                JStr (str ''Serverless Function Internal Error: '' @ message jsonParseError))]) \<rparr>
    \<and> message jsonParseError = SyntaxError_message P raw
    \<and> (length raw \<le> 200 \<longrightarrow> take 200 raw @ str ''...'' = raw @ str ''...'')"
proof -
  have "message jsonParseError = SyntaxError_message P raw"
    using assms(5) by (auto simp: JSON_parse_def split: option.splits if_splits)
  then show ?thesis
    unfolding handler_validated [OF assms(1-3)] handler_netlify_validated [OF assms(1-3)]
    using assms(4,5)
    by (simp add: try_block_def try_block_netlify_def catch_def parse_failure_eq
        internal_error_eq del: SerializeJSONProperty.simps json_of_qval.simps)
qed

theorem parse_failure_is_500_witness:
  "fst (handler sample_platform (Some (str ''secret''))
      (\<lambda>r. Inr \<lparr> status = 200, body_text = Inr (str ''<html>error</html>'') \<rparr>)
      \<lparr> queryStringParameters = Some [(str ''datasetId'', QStr (str ''F-C0032-001''))] \<rparr>) =
      Inr \<lparr> statusCode = 500, headers = json_headers,
            body = str ''{\"error\":\"Serverless Function Internal Error: Failed to parse CWA API response as JSON. Original error: Unexpected token in JSON\",\"raw_cwa_response_snippet\":\"<html>error</html>...\",\"datasetId\":\"F-C0032-001\"}'' \<rparr>
   \<and> fst (handler_netlify sample_platform (Some (str ''secret''))
      (\<lambda>r. Inr \<lparr> status = 200, body_text = Inr (str ''<html>error</html>'') \<rparr>)
      \<lparr> queryStringParameters = Some [(str ''datasetId'', QStr (str ''F-C0032-001''))] \<rparr>) =
      Inr \<lparr> statusCode = 500, headers = json_headers,
            body = str ''{\"error\":\"Serverless Function Internal Error: Unexpected token in JSON\"}'' \<rparr>"
proof -
  have d: "map_of [(str ''datasetId'', QStr (str ''F-C0032-001''))] (str ''datasetId'')
      = Some (QStr (str ''F-C0032-001''))"
    by simp
  have t: "qval_ToBoolean (Some (QStr (str ''F-C0032-001'')))"
    by (simp add: str_def)
  have m: "SyntaxError_message sample_platform raw = str ''Unexpected token in JSON''" for raw
    by (simp add: sample_platform_def)
  have a: "SerializeJSONProperty sample_platform (JObj
              [(str ''error'',
                JStr (str ''Serverless Function Internal Error: Failed to parse CWA API response as JSON. Original error: ''
                      @ str ''Unexpected token in JSON'')),
               (str ''raw_cwa_response_snippet'', JStr (take 200 (str ''<html>error</html>'') @ str ''...'')),
               (str ''datasetId'', json_of_qval (QStr (str ''F-C0032-001'')))])
      = str ''{\"error\":\"Serverless Function Internal Error: Failed to parse CWA API response as JSON. Original error: Unexpected token in JSON\",\"raw_cwa_response_snippet\":\"<html>error</html>...\",\"datasetId\":\"F-C0032-001\"}''"
    by (simp add: quote_defs str_def)
  have b: "SerializeJSONProperty sample_platform (JObj
              [(str ''error'',
                JStr (str ''Serverless Function Internal Error: '' @ str ''Unexpected token in JSON''))])
      = str ''{\"error\":\"Serverless Function Internal Error: Unexpected token in JSON\"}''"
    by (simp add: quote_defs str_def)
  from parse_failure_is_500 [OF _ d t _ parse_html, where
      event = "\<lparr> queryStringParameters = Some [(str ''datasetId'', QStr (str ''F-C0032-001''))] \<rparr>"
      and fetch = "\<lambda>r. Inr \<lparr> status = 200, body_text = Inr (str ''<html>error</html>'') \<rparr>"
      and key = "Some (str ''secret'')" and P = sample_platform and st = 200]
  show ?thesis
    unfolding a [symmetric] b [symmetric]
    by (simp add: m del: SerializeJSONProperty.simps json_of_qval.simps)
qed

text \<open>
  C8, as stated, fails. For the body \<open><html>error</html>\<close> the snippet of the first
  handler is not the first 200 code units of the raw body (three dots follow them), and
  the response of the second handler has no snippet and no \<open>datasetId\<close>.
\<close>

theorem parse_failure_counterexample:
  "fst (handler sample_platform (Some (str ''secret''))
      (\<lambda>r. Inr \<lparr> status = 200, body_text = Inr (str ''<html>error</html>'') \<rparr>)
      \<lparr> queryStringParameters = Some [(str ''datasetId'', QStr (str ''F-C0032-001''))] \<rparr>) =
      Inr \<lparr> statusCode = 500, headers = json_headers,
            body = SerializeJSONProperty sample_platform (JObj
              [(str ''error'',
                JStr (str ''Serverless Function Internal Error: Failed to parse CWA API response as JSON. Original error: Unexpected token in JSON'')),
               (str ''raw_cwa_response_snippet'', JStr (str ''<html>error</html>...'')),
               (str ''datasetId'', JStr (str ''F-C0032-001''))]) \<rparr>
   \<and> str ''<html>error</html>...'' \<noteq> take 200 (str ''<html>error</html>'')
   \<and> fst (handler_netlify sample_platform (Some (str ''secret''))
      (\<lambda>r. Inr \<lparr> status = 200, body_text = Inr (str ''<html>error</html>'') \<rparr>)
      \<lparr> queryStringParameters = Some [(str ''datasetId'', QStr (str ''F-C0032-001''))] \<rparr>) =
      Inr \<lparr> statusCode = 500, headers = json_headers,
            body = SerializeJSONProperty sample_platform (JObj
              [(str ''error'',
                JStr (str ''Serverless Function Internal Error: Unexpected token in JSON''))]) \<rparr>"
  by (simp add: handler_defs parse_defs scan_number_def scan_int_def quote_defs str_def)

section \<open>Exceptions\<close>

text \<open>
  C9. After validation, every exception that leaves the \<open>try\<close> block is turned into a
  response with status 500 and body
  \<open>{"error":"Serverless Function Internal Error: <message>"}\<close>; a \<open>fetch\<close> that fails
  before any reply, and a reply whose body cannot be read, are such exceptions in both
  handlers.
\<close>

theorem unexpected_exception_is_500:
  assumes "queryStringParameters event = Some params"
    and "map_of params (str ''datasetId'') = Some d"
    and "qval_ToBoolean (Some d)"
    and "req = cwa_request key d (filter (\<lambda>p. fst p \<noteq> str ''datasetId'') params)"
  shows "(try_block P fetch req d = Inl e \<longrightarrow>
        handler P key fetch event =
          (Inr \<lparr> statusCode = 500, headers = json_headers,
                 body = SerializeJSONProperty P (JObj [(str ''error'',
                          JStr (str ''Serverless Function Internal Error: '' @ message e))]) \<rparr>,
           [req]))
    \<and> (try_block_netlify P fetch req = Inl e \<longrightarrow>
        handler_netlify P key fetch event =
          (Inr \<lparr> statusCode = 500, headers = json_headers,
                 body = SerializeJSONProperty P (JObj [(str ''error'',
                          JStr (str ''Serverless Function Internal Error: '' @ message e))]) \<rparr>,
           [req]))
    \<and> (fetch req = Inl e \<or> (\<exists>st. fetch req = Inr \<lparr> status = st, body_text = Inl e \<rparr>) \<longrightarrow>
        try_block P fetch req d = Inl e \<and> try_block_netlify P fetch req = Inl e)"
proof -
  have "try_block P fetch req d = Inl e \<and> try_block_netlify P fetch req = Inl e"
    if "fetch req = Inl e \<or> (\<exists>st. fetch req = Inr \<lparr> status = st, body_text = Inl e \<rparr>)"
    using that by (auto simp: try_block_def try_block_netlify_def)
  then show ?thesis
    unfolding handler_validated [OF assms(1-3)] handler_netlify_validated [OF assms(1-3)]
    by (simp add: assms(4) catch_def internal_error_eq del: SerializeJSONProperty.simps)
qed

theorem unexpected_exception_is_500_witness:
  "handler sample_platform (Some (str ''secret'')) (\<lambda>r. Inl (JSError (str ''fetch failed'')))
      \<lparr> queryStringParameters = Some [(str ''datasetId'', QStr (str ''F-C0032-001''))] \<rparr> =
      (Inr \<lparr> statusCode = 500, headers = json_headers,
             body = str ''{\"error\":\"Serverless Function Internal Error: fetch failed\"}'' \<rparr>,
       [\<lparr> url = str ''https://opendata.cwa.gov.tw/api/v1/rest/datastore/F-C0032-001?'',
           request_headers = [(str ''Authorization'', str ''CWA secret'')] \<rparr>])"
proof -
  have d: "map_of [(str ''datasetId'', QStr (str ''F-C0032-001''))] (str ''datasetId'')
      = Some (QStr (str ''F-C0032-001''))"
    by simp
  have t: "qval_ToBoolean (Some (QStr (str ''F-C0032-001'')))"
    by (simp add: str_def)
  show ?thesis
    using unexpected_exception_is_500 [OF _ d t refl, where
        event = "\<lparr> queryStringParameters = Some [(str ''datasetId'', QStr (str ''F-C0032-001''))] \<rparr>"
        and fetch = "\<lambda>r. Inl (JSError (str ''fetch failed''))" and key = "Some (str ''secret'')"
        and e = "JSError (str ''fetch failed'')" and P = sample_platform]
    by (simp add: cwa_request_def cwaUrl_def cwaApiBaseUrl_def URLSearchParams_def
        URLSearchParams_toString_def quote_defs str_def)
qed

section \<open>The secret key\<close>

text \<open>
  C10. Take two runs on the same event with two keys (and possibly two networks). If the
  upstream calls of the two runs have the same outcome, the two runs return the same
  result to the caller; and the URLs requested are the same in any case. The key reaches
  nothing but the \<open>Authorization\<close> header of the outbound request.
\<close>

theorem key_noninterference:
  "(map fetch1 (snd (handler P k1 fetch1 event)) = map fetch2 (snd (handler P k2 fetch2 event))
      \<longrightarrow> fst (handler P k1 fetch1 event) = fst (handler P k2 fetch2 event))
   \<and> (map fetch1 (snd (handler_netlify P k1 fetch1 event))
          = map fetch2 (snd (handler_netlify P k2 fetch2 event))
      \<longrightarrow> fst (handler_netlify P k1 fetch1 event) = fst (handler_netlify P k2 fetch2 event))
   \<and> map url (snd (handler P k1 fetch1 event)) = map url (snd (handler P k2 fetch2 event))
   \<and> map url (snd (handler_netlify P k1 fetch1 event))
        = map url (snd (handler_netlify P k2 fetch2 event))"
proof (cases "queryStringParameters event")
  case None
  then show ?thesis
    by (simp add: handler_def handler_netlify_def)
next
  case (Some params)
  show ?thesis
  proof (cases "qval_ToBoolean (map_of params (str ''datasetId''))")
    case False
    then show ?thesis
      by (simp add: handler_rejected [OF Some])
  next
    case True
    then obtain d where d: "map_of params (str ''datasetId'') = Some d"
      by (cases "map_of params (str ''datasetId'')") auto
    with True have t: "qval_ToBoolean (Some d)"
      by simp
    have "url (cwa_request k1 d ps) = url (cwa_request k2 d ps)" for ps
      by (simp add: cwa_request_def)
    then show ?thesis
      unfolding handler_validated [OF Some d t] handler_netlify_validated [OF Some d t]
      by (auto intro!: arg_cong [where f = "catch P"] try_block_cong)
  qed
qed

theorem key_noninterference_witness:
  "fst (handler sample_platform (Some (str ''key-one''))
      (\<lambda>r. Inr \<lparr> status = 200, body_text = Inr (str ''{\"foo\":\"bar\"}'') \<rparr>)
      \<lparr> queryStringParameters = Some [(str ''datasetId'', QStr (str ''F-C0032-001''))] \<rparr>)
   = fst (handler sample_platform (Some (str ''key-two''))
      (\<lambda>r. Inr \<lparr> status = 200, body_text = Inr (str ''{\"foo\":\"bar\"}'') \<rparr>)
      \<lparr> queryStringParameters = Some [(str ''datasetId'', QStr (str ''F-C0032-001''))] \<rparr>)
   \<and> fst (handler_netlify sample_platform (Some (str ''key-one''))
      (\<lambda>r. Inr \<lparr> status = 200, body_text = Inr (str ''{\"foo\":\"bar\"}'') \<rparr>)
      \<lparr> queryStringParameters = Some [(str ''datasetId'', QStr (str ''F-C0032-001''))] \<rparr>)
   = fst (handler_netlify sample_platform (Some (str ''key-two''))
      (\<lambda>r. Inr \<lparr> status = 200, body_text = Inr (str ''{\"foo\":\"bar\"}'') \<rparr>)
      \<lparr> queryStringParameters = Some [(str ''datasetId'', QStr (str ''F-C0032-001''))] \<rparr>)"
proof -
  let ?ev = "\<lparr> queryStringParameters = Some [(str ''datasetId'', QStr (str ''F-C0032-001''))] \<rparr>"
  let ?f = "\<lambda>r :: request. (Inr \<lparr> status = 200, body_text = Inr (str ''{\"foo\":\"bar\"}'') \<rparr>
      :: jserror + upstream_response)"
  have q: "queryStringParameters ?ev = Some [(str ''datasetId'', QStr (str ''F-C0032-001''))]"
    by simp
  have d: "map_of [(str ''datasetId'', QStr (str ''F-C0032-001''))] (str ''datasetId'')
      = Some (QStr (str ''F-C0032-001''))"
    by simp
  have t: "qval_ToBoolean (Some (QStr (str ''F-C0032-001'')))"
    by (simp add: str_def)
  have "map ?f (snd (handler sample_platform k ?f ?ev)) = [?f undefined]"
    and "map ?f (snd (handler_netlify sample_platform k ?f ?ev)) = [?f undefined]" for k
    unfolding handler_validated [OF q d t] handler_netlify_validated [OF q d t]
    by simp_all
  then show ?thesis
    using key_noninterference [of ?f sample_platform "Some (str ''key-one'')" ?ev ?f
        "Some (str ''key-two'')"]
    by presburger
qed

section \<open>Every response is JSON\<close>

text \<open>
  C1. On a platform that prints numbers well, every response either handler returns, on
  whichever path, has exactly the headers \<open>Content-Type: application/json\<close> and
  \<open>Access-Control-Allow-Origin: *\<close>, and a body that \<open>JSON.parse\<close> accepts.
\<close>

theorem every_response_is_json:
  assumes "number_literals_ok P"
    and "fst (handler P key fetch event) = Inr r
       \<or> fst (handler_netlify P key fetch event) = Inr r"
  shows "headers r = [(str ''Content-Type'', str ''application/json''),
                      (str ''Access-Control-Allow-Origin'', str ''*'')]
    \<and> (\<exists>v. JSON_parse P (body r) = Inr v)"
proof -
  from response_shape [OF assms(2)] obtain x where
    "headers r = json_headers" and "body r = SerializeJSONProperty P x"
    by (auto simp: json_response_def)
  then show ?thesis
    using JSON_parse_stringify [OF assms(1), of x] by (simp add: json_headers_def)
qed

theorem every_response_is_json_witness:
  "fst (handler sample_platform (Some (str ''secret''))
      (\<lambda>r. Inr \<lparr> status = 200, body_text = Inr (str ''[1, -20, {}]'') \<rparr>)
      \<lparr> queryStringParameters = Some [(str ''datasetId'', QStr (str ''F-C0032-001''))] \<rparr>)
    = Inr \<lparr> statusCode = 200, headers = json_headers, body = str ''[1,-20,{}]'' \<rparr>
   \<and> json_headers = [(str ''Content-Type'', str ''application/json''),
                      (str ''Access-Control-Allow-Origin'', str ''*'')]
   \<and> (\<exists>v. JSON_parse sample_platform (str ''[1,-20,{}]'') = Inr v)"
proof -
  have r: "fst (handler sample_platform (Some (str ''secret''))
      (\<lambda>r. Inr \<lparr> status = 200, body_text = Inr (str ''[1, -20, {}]'') \<rparr>)
      \<lparr> queryStringParameters = Some [(str ''datasetId'', QStr (str ''F-C0032-001''))] \<rparr>)
    = Inr \<lparr> statusCode = 200, headers = json_headers, body = str ''[1,-20,{}]'' \<rparr>"
    by (simp add: handler_defs parse_defs scan_number_def scan_int_def scan_frac_def
        scan_exp_def integer_of_literal_def digits_value_def integer_to_string_def
        decimal.simps digit_char_def str_def)
  from every_response_is_json [OF sample_platform_ok disjI1, OF r] show ?thesis
    using r by simp
qed

end
